theory Spec2Isabelle
  imports Main "HOL-Library.AList"
begin

section \<open>Errors raised by the elaborator\<close>

text \<open>
  Every \<open>raise\<close> of \<open>hdl21/elab.py\<close> is a value of this type. The payloads keep what the
  message of the source interpolates, as far as a property depends on it.
\<close>

datatype error =
    NameError "string list" string
  | TypeError
  | RuntimeError
  | KeyError
  | AttributeError
  | RecursionError
  | AnonymousModule
  | UndefinedInstance
  | InvalidPort string string
  | PortNotFound string
  | InterfacesPresent
  | Shorting "(string \<times> string) list"
  | GeneratorError
  | Dangling
  | UnboundLocalError

section \<open>Name mangling: \<open>_Elaborator.flatname\<close>\<close>

text \<open>Python's \<open>sep.join(segments)\<close>.\<close>

fun join :: "string \<Rightarrow> string list \<Rightarrow> string" where
  "join sep [] = []"
| "join sep [x] = x"
| "join sep (x # y # ys) = x @ sep @ join sep (y # ys)"

text \<open>
  The \<open>while True\<close> loop of \<open>flatname\<close>: the length test comes first, then the membership
  test against the keys of \<open>avoid\<close>, then the candidate is wrapped in one more underscore
  on each side. \<open>maxlen\<close> is a Python \<open>int\<close>; only the keys of the dictionary \<open>avoid\<close> are
  read. Each round makes the candidate two characters longer, so the loop ends.
\<close>

function flatname_loop :: "string list \<Rightarrow> string set \<Rightarrow> int \<Rightarrow> string \<Rightarrow> error + string" where
  "flatname_loop segments avoid maxlen name =
     (if int (length name) > maxlen then Inl (NameError segments name)
      else if name \<notin> avoid then Inr name
      else flatname_loop segments avoid maxlen (''_'' @ name @ ''_''))"
  by pat_completeness auto
termination
  by (relation "measure (\<lambda>(segments, avoid, maxlen, name). nat (maxlen + 1 - int (length name)))") auto

declare flatname_loop.simps [simp del]

definition flatname :: "string list \<Rightarrow> string set \<Rightarrow> int \<Rightarrow> error + string" where
  "flatname segments avoid maxlen = flatname_loop segments avoid maxlen (''_'' @ join ''_'' segments @ ''_'')"

text \<open>The default of the keyword argument \<open>maxlen\<close>.\<close>

definition default_maxlen :: int where
  "default_maxlen = 511"

text \<open>The candidate after \<open>k\<close> collisions.\<close>

fun wrap :: "nat \<Rightarrow> string \<Rightarrow> string" where
  "wrap 0 name = name"
| "wrap (Suc k) name = wrap k (''_'' @ name @ ''_'')"


section \<open>The circuit IR\<close>

text \<open>
  \<open>elab.py\<close> imports its node classes (\<open>Module\<close>, \<open>Instance\<close>, \<open>PortRef\<close>, \<open>Signal\<close>,
  \<open>Interface\<close>, \<open>InterfaceInstance\<close>, \<open>Generator\<close>, \<open>GeneratorCall\<close>) from sibling files.
  The records below hold the attributes that \<open>elab.py\<close> reads and writes. Objects that are
  mutated or compared with \<open>is\<close> live in a store and are named by their address, which
  stands for Python's \<open>id\<close>.
\<close>

type_synonym addr = nat
type_synonym role = string

datatype Visibility = INTERNAL | PORT

datatype PortDir = INPUT | OUTPUT | INOUT | NONE

record Signal =
  sig_name :: string
  width :: nat
  vis :: Visibility
  direction :: PortDir
  src :: "role option"
  dest :: "role option"

text \<open>
  An \<open>Interface\<close> definition: its scalar signals and its nested interface fields, each an
  ordered dictionary. A nested field is an \<open>InterfaceInstance\<close> of which the flattener reads
  the name and the type only, so it is kept by value as (key, name, type). The elaborator
  never writes to a definition: it deep-copies the signals.
\<close>

datatype Interface =
  Interface (intf_name: string) (intf_signals: "(string \<times> Signal) list")
            (intf_interfaces: "(string \<times> string \<times> Interface) list")

text \<open>
  A \<open>PortRef\<close> is the pair of an owner and a port name; the owner is an \<open>Instance\<close> or an
  \<open>InterfaceInstance\<close>. As a dictionary key two PortRefs are equal when owner identity
  and port name agree, which is what \<open>ImplicitSignals\<close> relies on when it looks a
  user-made PortRef up among keys it built itself. \<open>InterfaceFlattener\<close> compares
  PortRef objects with \<open>is\<close>, hence the object identity \<open>pr_id\<close>.
\<close>

datatype owner = PInst addr | PIntf addr

datatype PortRef = PortRef (pr_id: addr) (pr_inst: owner) (portname: string)

type_synonym portkey = "owner \<times> string"

definition key_of :: "PortRef \<Rightarrow> portkey" where
  "key_of r = (pr_inst r, portname r)"

text \<open>What a connection slot of an Instance may hold.\<close>

datatype conn = CSignal addr | CPortRef PortRef | CInterface addr

text \<open>
  The target of an Instance. A primitive or external call is a leaf that exposes the port
  definitions of its primitive; \<open>OfOther\<close> is any other Python value.
\<close>

datatype target =
    OfModule addr
  | OfCall addr
  | OfPrimitive "(string \<times> Signal) list"
  | OfExternal "(string \<times> Signal) list"
  | OfOther

record Instance =
  inst_name :: string
  inst_of :: target
  conns :: "(string \<times> conn) list"
  inst_elaborated :: bool

record InterfaceInstance =
  ii_name :: string
  ii_of :: Interface
  port :: bool
  role :: "role option"
  portrefs :: "(string \<times> PortRef) list"
  ii_elaborated :: bool

datatype nsval = NSignal addr | NInstance addr | NInterface addr

record Module =
  mod_name :: "string option"
  ports :: "(string \<times> addr) list"
  signals :: "(string \<times> addr) list"
  instances :: "(string \<times> addr) list"
  interfaces :: "(string \<times> addr) list"
  namespace :: "(string \<times> nsval) list"
  pymodule :: "string option"

type_synonym arg = "(string \<times> int) list"

record Generator =
  gen_id :: nat
  func_name :: string
  usecontext :: bool
  gen_pymodule :: "string option"

record GeneratorCall =
  gen :: Generator
  arg :: arg
  result :: "addr option"

datatype Context = Context

record heap =
  h_modules :: "addr \<rightharpoonup> Module"
  h_instances :: "addr \<rightharpoonup> Instance"
  h_signals :: "addr \<rightharpoonup> Signal"
  h_interfaces :: "addr \<rightharpoonup> InterfaceInstance"
  h_calls :: "addr \<rightharpoonup> GeneratorCall"
  next_addr :: addr

subsection \<open>Errors as values\<close>

definition ebind :: "error + 'a \<Rightarrow> ('a \<Rightarrow> error + 'b) \<Rightarrow> error + 'b" where
  "ebind m f = (case m of Inl e \<Rightarrow> Inl e | Inr x \<Rightarrow> f x)"

text \<open>A \<open>for\<close> loop whose body may raise: the first error ends the loop.\<close>

fun for_each :: "('a \<Rightarrow> 's \<Rightarrow> error + 's) \<Rightarrow> 'a list \<Rightarrow> 's \<Rightarrow> error + 's" where
  "for_each body [] s = Inr s"
| "for_each body (x # xs) s = ebind (body x s) (for_each body xs)"

subsection \<open>Reading the store\<close>

text \<open>
  A Python reference always names an object. An address outside the store has no
  counterpart in the source; the model answers \<open>Dangling\<close> there to stay total.
\<close>

definition get_module :: "heap \<Rightarrow> addr \<Rightarrow> error + Module" where
  "get_module h a = (case h_modules h a of None \<Rightarrow> Inl Dangling | Some M \<Rightarrow> Inr M)"

definition get_instance :: "heap \<Rightarrow> addr \<Rightarrow> error + Instance" where
  "get_instance h a = (case h_instances h a of None \<Rightarrow> Inl Dangling | Some i \<Rightarrow> Inr i)"

definition get_signal :: "heap \<Rightarrow> addr \<Rightarrow> error + Signal" where
  "get_signal h a = (case h_signals h a of None \<Rightarrow> Inl Dangling | Some x \<Rightarrow> Inr x)"

definition get_interface :: "heap \<Rightarrow> addr \<Rightarrow> error + InterfaceInstance" where
  "get_interface h a = (case h_interfaces h a of None \<Rightarrow> Inl Dangling | Some x \<Rightarrow> Inr x)"

definition get_call :: "heap \<Rightarrow> addr \<Rightarrow> error + GeneratorCall" where
  "get_call h a = (case h_calls h a of None \<Rightarrow> Inl Dangling | Some x \<Rightarrow> Inr x)"

subsection \<open>Ordered dictionaries\<close>

text \<open>
  A Python \<open>dict\<close> keeps insertion order: an association list with distinct keys.
  \<open>d[k] = v\<close> is \<open>AList.update\<close> (in place for a present key, at the end for a new one),
  \<open>d.get(k)\<close> is \<open>map_of\<close>, \<open>d.pop(k)\<close> is \<open>AList.delete\<close> after a lookup that raises
  \<open>KeyError\<close>, and \<open>d.popitem()\<close> takes the last pair.
\<close>

definition dict_pop :: "'k \<Rightarrow> ('k \<times> 'v) list \<Rightarrow> error + ('v \<times> ('k \<times> 'v) list)" where
  "dict_pop k d = (case map_of d k of None \<Rightarrow> Inl KeyError | Some v \<Rightarrow> Inr (v, AList.delete k d))"

definition dict_getitem :: "('k \<times> 'v) list \<Rightarrow> 'k \<Rightarrow> error + 'v" where
  "dict_getitem d k = (case map_of d k of None \<Rightarrow> Inl KeyError | Some v \<Rightarrow> Inr v)"

section \<open>The visitor base class \<open>_Elaborator\<close>\<close>

text \<open>
  The state of one pass: the store, the tables the pass object owns (\<open>self.modules\<close> and
  the like; a pass without tables has \<open>unit\<close>), and \<open>visits\<close>. The last is not a field of
  the source: it lists, in order, the modules whose \<open>elaborate_module\<close> body the pass ran,
  so that a statement can count them. Nothing reads it.
\<close>

record 't elab =
  store :: heap
  tables :: 't
  visits :: "addr list"

text \<open>
  The property \<open>Instance._resolved\<close>: the result of the GeneratorCall when the target is
  one (\<open>None\<close> before the generator has run), the target itself otherwise.
\<close>

datatype resolved =
    RModule addr
  | RPrimitive "(string \<times> Signal) list"
  | RExternal "(string \<times> Signal) list"
  | ROther
  | RNone

definition resolved_of :: "heap \<Rightarrow> Instance \<Rightarrow> error + resolved" where
  "resolved_of h inst =
     (case inst_of inst of
        OfModule m \<Rightarrow> Inr (RModule m)
      | OfCall c \<Rightarrow> ebind (get_call h c)
          (\<lambda>call. Inr (case result call of None \<Rightarrow> RNone | Some m \<Rightarrow> RModule m))
      | OfPrimitive ps \<Rightarrow> Inr (RPrimitive ps)
      | OfExternal ps \<Rightarrow> Inr (RExternal ps)
      | OfOther \<Rightarrow> Inr ROther)"

definition set_instance :: "addr \<Rightarrow> Instance \<Rightarrow> heap \<Rightarrow> heap" where
  "set_instance a i h = h\<lparr>h_instances := (h_instances h)(a \<mapsto> i)\<rparr>"

definition set_module :: "addr \<Rightarrow> Module \<Rightarrow> heap \<Rightarrow> heap" where
  "set_module a M h = h\<lparr>h_modules := (h_modules h)(a \<mapsto> M)\<rparr>"

definition set_signal :: "addr \<Rightarrow> Signal \<Rightarrow> heap \<Rightarrow> heap" where
  "set_signal a x h = h\<lparr>h_signals := (h_signals h)(a \<mapsto> x)\<rparr>"

definition set_interface :: "addr \<Rightarrow> InterfaceInstance \<Rightarrow> heap \<Rightarrow> heap" where
  "set_interface a x h = h\<lparr>h_interfaces := (h_interfaces h)(a \<mapsto> x)\<rparr>"

definition set_call :: "addr \<Rightarrow> GeneratorCall \<Rightarrow> heap \<Rightarrow> heap" where
  "set_call a x h = h\<lparr>h_calls := (h_calls h)(a \<mapsto> x)\<rparr>"

text \<open>
  \<open>_Elaborator.elaborate_instance\<close>, the version of every pass but the generator pass.
  \<open>elaborate_module\<close> is the method of the subclass, passed as \<open>em\<close>; the value the source
  returns is dropped, as every caller drops it. \<open>OfOther\<close> stands for a truthy value.
\<close>

definition elaborate_instance ::
  "(addr \<Rightarrow> 't elab \<Rightarrow> error + 't elab) \<Rightarrow> addr \<Rightarrow> 't elab \<Rightarrow> error + 't elab" where
  "elaborate_instance em a st =
     ebind (get_instance (store st) a) (\<lambda>inst.
       let st1 = st\<lparr>store := set_instance a (inst\<lparr>inst_elaborated := True\<rparr>) (store st)\<rparr> in
       ebind (resolved_of (store st1) inst) (\<lambda>r.
         case r of
           RNone \<Rightarrow> Inl UndefinedInstance
         | RModule m \<Rightarrow> em m st1
         | RPrimitive ps \<Rightarrow> Inr st1
         | RExternal ps \<Rightarrow> Inr st1
         | ROther \<Rightarrow> Inl TypeError))"

text \<open>\<open>_Elaborator.elaborate_interface_instance\<close>: the bundle is marked as elaborated.\<close>

definition elaborate_interface_instance :: "addr \<Rightarrow> heap \<Rightarrow> error + heap" where
  "elaborate_interface_instance a h =
     ebind (get_interface h a) (\<lambda>i. Inr (set_interface a (i\<lparr>ii_elaborated := True\<rparr>) h))"

text \<open>
  Modelled from the spec: \<open>Module.add\<close> is defined in \<open>module.py\<close>, which is not among the
  sources. By section 3 of the spec a Module has an ordered map of ports, one of internal
  signals, one of instances, one of interface instances, and a namespace that is the
  union of their names; a Signal of visibility \<open>PORT\<close> is a port.
\<close>

definition module_add_signal :: "addr \<Rightarrow> addr \<Rightarrow> heap \<Rightarrow> error + heap" where
  "module_add_signal m a h =
     ebind (get_module h m) (\<lambda>M.
     ebind (get_signal h a) (\<lambda>x.
       let M1 = M\<lparr>namespace := AList.update (sig_name x) (NSignal a) (namespace M)\<rparr>;
           M2 = (if vis x = PORT then M1\<lparr>ports := AList.update (sig_name x) a (ports M1)\<rparr>
                 else M1\<lparr>signals := AList.update (sig_name x) a (signals M1)\<rparr>)
       in Inr (set_module m M2 h)))"

definition module_add_interface :: "addr \<Rightarrow> addr \<Rightarrow> heap \<Rightarrow> error + heap" where
  "module_add_interface m a h =
     ebind (get_module h m) (\<lambda>M.
     ebind (get_interface h a) (\<lambda>x.
       Inr (set_module m
         (M\<lparr>namespace := AList.update (ii_name x) (NInterface a) (namespace M),
            interfaces := AList.update (ii_name x) a (interfaces M)\<rparr>) h)))"

text \<open>\<open>copy.copy\<close> of a Signal or an InterfaceInstance: a new object with the same fields.\<close>

definition new_signal :: "Signal \<Rightarrow> heap \<Rightarrow> addr \<times> heap" where
  "new_signal x h = (next_addr h, (set_signal (next_addr h) x h)\<lparr>next_addr := Suc (next_addr h)\<rparr>)"

definition new_interface :: "InterfaceInstance \<Rightarrow> heap \<Rightarrow> addr \<times> heap" where
  "new_interface x h =
     (next_addr h, (set_interface (next_addr h) x h)\<lparr>next_addr := Suc (next_addr h)\<rparr>)"

section \<open>Nets of port-to-port connections\<close>

text \<open>\<open>SetList.add\<close>: append unless present.\<close>

definition setlist_add :: "'a \<Rightarrow> 'a list \<Rightarrow> 'a list" where
  "setlist_add x xs = (if x \<in> set xs then xs else xs @ [x])"

text \<open>
  The inner loop \<open>while outer in portconns: outer = portconns.pop(outer); this_net.add(outer)\<close>.
  It returns the net and what is left of \<open>portconns\<close>. Each round removes a key.
\<close>

function follow ::
  "portkey \<Rightarrow> portkey list \<Rightarrow> (portkey \<times> PortRef) list \<Rightarrow> portkey list \<times> (portkey \<times> PortRef) list" where
  "follow outer net pc =
     (case map_of pc outer of
        None \<Rightarrow> (net, pc)
      | Some r \<Rightarrow> follow (key_of r) (setlist_add (key_of r) net) (AList.delete outer pc))"
  by pat_completeness auto

termination
  by (relation "measure (\<lambda>(outer, net, pc). length pc)")
     (auto simp: AList.delete_eq dest!: map_of_SomeD intro!: length_filter_less)

declare follow.simps [simp del]

text \<open>
  The outer loop \<open>while portconns:\<close>. \<open>popitem\<close> takes the pair inserted last; the net
  starts with its two ends and is extended by \<open>follow\<close>.
\<close>

function build_nets :: "(portkey \<times> PortRef) list \<Rightarrow> portkey list list" where
  "build_nets pc =
     (if pc = [] then []
      else let inner = fst (last pc);
               outer = key_of (snd (last pc));
               walked = follow outer (setlist_add outer (setlist_add inner [])) (butlast pc)
           in fst walked # build_nets (snd walked))"
  by pat_completeness auto
termination
proof (relation "measure length")
  show "wf (measure length)" by simp
next
  fix pc :: "(portkey \<times> PortRef) list" and inner outer walked
  assume ne: "pc \<noteq> []" and w: "walked = follow outer (setlist_add outer (setlist_add inner [])) (butlast pc)"
  have shrink: "length (snd (follow k net d)) \<le> length d" for k net d
  proof (induction k net d rule: follow.induct)
    case (1 k net d)
    show ?case
    proof (cases "map_of d k")
      case None
      then show ?thesis by (simp add: follow.simps)
    next
      case (Some r)
      have "length (AList.delete k d) \<le> length d"
        by (simp add: AList.delete_eq)
      with 1[OF Some] Some show ?thesis by (simp add: follow.simps)
    qed
  qed
  from shrink[of outer "setlist_add outer (setlist_add inner [])" "butlast pc"] ne w
  show "(snd walked, pc) \<in> measure length"
    by (cases pc rule: rev_cases) auto
qed

declare build_nets.simps [simp del]

text \<open>A list comprehension whose element expression may raise.\<close>

fun map_err :: "('a \<Rightarrow> error + 'b) \<Rightarrow> 'a list \<Rightarrow> error + 'b list" where
  "map_err f [] = Inr []"
| "map_err f (x # xs) = ebind (f x) (\<lambda>y. ebind (map_err f xs) (\<lambda>ys. Inr (y # ys)))"

definition owner_name :: "heap \<Rightarrow> owner \<Rightarrow> error + string" where
  "owner_name h ow =
     (case ow of
        PInst a \<Rightarrow> ebind (get_instance h a) (\<lambda>i. Inr (inst_name i))
      | PIntf a \<Rightarrow> ebind (get_interface h a) (\<lambda>i. Inr (ii_name i)))"

text \<open>\<open>[(p.inst.name, p.portname) for p in net]\<close>\<close>

definition net_names :: "heap \<Rightarrow> portkey list \<Rightarrow> error + (string \<times> string) list" where
  "net_names h net = map_err (\<lambda>(ow, pn). ebind (owner_name h ow) (\<lambda>n. Inr (n, pn))) net"

text \<open>\<open>[f"{p.inst.name}_{p.portname}" for p in net]\<close>\<close>

definition segments_of :: "(string \<times> string) list \<Rightarrow> string list" where
  "segments_of names = map (\<lambda>(n, pn). n @ ''_'' @ pn) names"

text \<open>
  \<open>portref.inst.conns.get(portref.portname, None)\<close>. By section 3 of the spec only an
  Instance has a connection map, so the attribute is missing on an InterfaceInstance.
\<close>

definition member_conn :: "heap \<Rightarrow> portkey \<Rightarrow> error + conn option" where
  "member_conn h p =
     (case fst p of
        PInst a \<Rightarrow> ebind (get_instance h a) (\<lambda>i. Inr (map_of (conns i) (snd p)))
      | PIntf a \<Rightarrow> Inl AttributeError)"

definition shorting_error :: "heap \<Rightarrow> portkey list \<Rightarrow> error" where
  "shorting_error h net = (case net_names h net of Inl e \<Rightarrow> e | Inr names \<Rightarrow> Shorting names)"

text \<open>\<open>portref.inst.conns[portref.portname] = sig\<close>\<close>

definition connect :: "conn \<Rightarrow> portkey \<Rightarrow> heap \<Rightarrow> error + heap" where
  "connect c p h =
     (case fst p of
        PInst a \<Rightarrow> ebind (get_instance h a)
          (\<lambda>i. Inr (set_instance a (i\<lparr>conns := AList.update (snd p) c (conns i)\<rparr>) h))
      | PIntf a \<Rightarrow> Inl AttributeError)"

definition owner_resolved :: "heap \<Rightarrow> owner \<Rightarrow> error + resolved" where
  "owner_resolved h ow =
     (case ow of
        PInst a \<Rightarrow> ebind (get_instance h a) (resolved_of h)
      | PIntf a \<Rightarrow> Inl AttributeError)"

section \<open>The pass \<open>ImplicitSignals\<close>\<close>

text \<open>
  The adjacency dictionary: one entry \<open>PortRef(inst, port) \<mapsto> conn\<close> for each connection
  of each Instance that is a PortRef.
\<close>

definition portconns_of_instance ::
  "addr \<Rightarrow> Instance \<Rightarrow> (portkey \<times> PortRef) list \<Rightarrow> (portkey \<times> PortRef) list" where
  "portconns_of_instance a i pc =
     fold (\<lambda>(pn, c) d. case c of CPortRef r \<Rightarrow> AList.update (PInst a, pn) r d | _ \<Rightarrow> d) (conns i) pc"

definition build_portconns :: "heap \<Rightarrow> addr list \<Rightarrow> error + (portkey \<times> PortRef) list" where
  "build_portconns h insts =
     for_each (\<lambda>a pc. ebind (get_instance h a) (\<lambda>i. Inr (portconns_of_instance a i pc))) insts []"

text \<open>
  Lines 275 to 284: the scan of a net for declared Signals. \<open>sig\<close> is the Signal seen
  last; a Signal that is not that object raises the shorting error, whose message lists the
  members of the whole net.
\<close>

fun find_signal :: "heap \<Rightarrow> portkey list \<Rightarrow> portkey list \<Rightarrow> addr option \<Rightarrow> error + addr option" where
  "find_signal h net [] sig = Inr sig"
| "find_signal h net (p # ps) sig =
     ebind (member_conn h p) (\<lambda>portconn.
       case portconn of
         Some (CSignal a) \<Rightarrow>
           (if sig \<noteq> None \<and> sig \<noteq> Some a then Inl (shorting_error h net)
            else find_signal h net ps (Some a))
       | _ \<Rightarrow> find_signal h net ps sig)"

text \<open>
  \<open>lastmod.ports.get(portref.portname, None)\<close>: the port definition of the resolved
  target. \<open>None\<close> and other values have no attribute \<open>ports\<close>.
\<close>

definition port_definition :: "heap \<Rightarrow> resolved \<Rightarrow> string \<Rightarrow> error + Signal option" where
  "port_definition h lastmod pn =
     (case lastmod of
        RModule m \<Rightarrow> ebind (get_module h m) (\<lambda>M.
          case map_of (ports M) pn of
            None \<Rightarrow> Inr None
          | Some a \<Rightarrow> ebind (get_signal h a) (\<lambda>x. Inr (Some x)))
      | RPrimitive ps \<Rightarrow> Inr (map_of ps pn)
      | RExternal ps \<Rightarrow> Inr (map_of ps pn)
      | ROther \<Rightarrow> Inl AttributeError
      | RNone \<Rightarrow> Inl AttributeError)"

text \<open>
  Lines 286 to 307: no declared Signal was found. \<open>portref\<close> is the loop variable left by
  the scan, the last member of the net; the nets that \<open>build_nets\<close> makes are not empty.
\<close>

definition create_signal :: "addr \<Rightarrow> portkey list \<Rightarrow> heap \<Rightarrow> error + (addr \<times> heap)" where
  "create_signal m net h =
     ebind (net_names h net) (\<lambda>names.
     ebind (get_module h m) (\<lambda>M.
     ebind (flatname (segments_of names) (set (map fst (namespace M))) default_maxlen) (\<lambda>signame.
       if net = [] then Inl UnboundLocalError
       else
         ebind (owner_resolved h (fst (last net))) (\<lambda>lastmod.
         ebind (port_definition h lastmod (snd (last net))) (\<lambda>d.
           case d of
             None \<Rightarrow> ebind (owner_name h (fst (last net))) (\<lambda>n. Inl (InvalidPort (snd (last net)) n))
           | Some x \<Rightarrow>
               (let fresh = new_signal (x\<lparr>sig_name := signame, vis := INTERNAL, direction := NONE\<rparr>) h
                in ebind (module_add_signal m (fst fresh) (snd fresh)) (\<lambda>h2. Inr (fst fresh, h2))))))))"

text \<open>Lines 272 to 310: one round of \<open>for net in nets\<close>.\<close>

definition resolve_net :: "addr \<Rightarrow> portkey list \<Rightarrow> heap \<Rightarrow> error + heap" where
  "resolve_net m net h =
     ebind (find_signal h net net None) (\<lambda>found.
     ebind (case found of Some a \<Rightarrow> Inr (a, h) | None \<Rightarrow> create_signal m net h) (\<lambda>r.
       for_each (connect (CSignal (fst r))) net (snd r)))"

text \<open>
  \<open>ImplicitSignals.elaborate_module\<close>. The first argument bounds the depth of the
  recursion through Instances, as the interpreter's recursion limit does: the pass keeps
  no table of finished modules.
\<close>

primrec ImplicitSignals_elaborate_module :: "nat \<Rightarrow> addr \<Rightarrow> unit elab \<Rightarrow> error + unit elab" where
  "ImplicitSignals_elaborate_module 0 = (\<lambda>m st. Inl RecursionError)"
| "ImplicitSignals_elaborate_module (Suc n) = (\<lambda>m st.
     ebind (get_module (store st) m) (\<lambda>M.
       if interfaces M \<noteq> [] then Inl InterfacesPresent
       else
         ebind (for_each (elaborate_instance (ImplicitSignals_elaborate_module n)) (map snd (instances M))
                  (st\<lparr>visits := visits st @ [m]\<rparr>)) (\<lambda>st1.
         ebind (get_module (store st1) m) (\<lambda>M1.
         ebind (build_portconns (store st1) (map snd (instances M1))) (\<lambda>portconns.
         ebind (for_each (resolve_net m) (build_nets portconns) (store st1)) (\<lambda>h2.
           Inr (st1\<lparr>store := h2\<rparr>)))))))"

section \<open>The pass \<open>ImplicitInterfaces\<close>\<close>

text \<open>
  Modelled from the spec: \<open>Module.get\<close>, \<open>Interface.get\<close>, \<open>InterfaceInstance._resolved\<close> and
  \<open>Module._interface_ports\<close> are defined in files that are not among the sources. By
  section 3 of the spec the namespace of a Module is the union of its named members, an
  Interface has signals and nested interface fields, an InterfaceInstance refers to its
  Interface type, and an InterfaceInstance has a port flag. \<open>peer_is_interface\<close> is the test
  \<open>isinstance(conn.inst._resolved, (Module, Interface))\<close> followed by
  \<open>isinstance(conn.inst._resolved.get(conn.portname), InterfaceInstance)\<close>, with the
  \<open>RuntimeError\<close> the source raises when \<open>get\<close> returns \<open>None\<close>.
\<close>

definition interface_get :: "Interface \<Rightarrow> string \<Rightarrow> bool option" where
  "interface_get d pn =
     (if pn \<in> set (map fst (intf_interfaces d)) then Some True
      else if pn \<in> set (map fst (intf_signals d)) then Some False
      else None)"

definition peer_is_interface :: "heap \<Rightarrow> PortRef \<Rightarrow> error + bool" where
  "peer_is_interface h r =
     (case pr_inst r of
        PInst a \<Rightarrow> ebind (get_instance h a) (\<lambda>i. ebind (resolved_of h i) (\<lambda>res.
          case res of
            RModule m \<Rightarrow> ebind (get_module h m) (\<lambda>M.
              case map_of (namespace M) (portname r) of
                None \<Rightarrow> Inl RuntimeError
              | Some (NInterface x) \<Rightarrow> Inr True
              | Some other \<Rightarrow> Inr False)
          | other \<Rightarrow> Inr False))
      | PIntf a \<Rightarrow> ebind (get_interface h a) (\<lambda>i.
          case interface_get (ii_of i) (portname r) of
            None \<Rightarrow> Inl RuntimeError
          | Some b \<Rightarrow> Inr b))"

definition interface_ports :: "heap \<Rightarrow> Module \<Rightarrow> (string \<times> addr) list" where
  "interface_ports h M =
     filter (\<lambda>(n, a). case h_interfaces h a of None \<Rightarrow> False | Some i \<Rightarrow> port i) (interfaces M)"

fun bundle_conns_of ::
  "heap \<Rightarrow> addr \<Rightarrow> (string \<times> conn) list \<Rightarrow> (portkey \<times> PortRef) list
     \<Rightarrow> error + (portkey \<times> PortRef) list" where
  "bundle_conns_of h a [] pc = Inr pc"
| "bundle_conns_of h a ((pn, c) # cs) pc =
     (case c of
        CPortRef r \<Rightarrow> ebind (peer_is_interface h r) (\<lambda>b.
          bundle_conns_of h a cs (if b then AList.update (PInst a, pn) r pc else pc))
      | other \<Rightarrow> bundle_conns_of h a cs pc)"

definition build_bundle_portconns :: "heap \<Rightarrow> addr list \<Rightarrow> error + (portkey \<times> PortRef) list" where
  "build_bundle_portconns h insts =
     for_each (\<lambda>a pc. ebind (get_instance h a) (\<lambda>i. bundle_conns_of h a (conns i) pc)) insts []"

text \<open>Lines 480 to 489: the scan of a net for declared InterfaceInstances.\<close>

fun find_interface :: "heap \<Rightarrow> portkey list \<Rightarrow> portkey list \<Rightarrow> addr option \<Rightarrow> error + addr option" where
  "find_interface h net [] sig = Inr sig"
| "find_interface h net (p # ps) sig =
     ebind (member_conn h p) (\<lambda>portconn.
       case portconn of
         Some (CInterface a) \<Rightarrow>
           (if sig \<noteq> None \<and> sig \<noteq> Some a then Inl (shorting_error h net)
            else find_interface h net ps (Some a))
       | _ \<Rightarrow> find_interface h net ps sig)"

definition interface_port_definition ::
  "heap \<Rightarrow> resolved \<Rightarrow> string \<Rightarrow> error + InterfaceInstance option" where
  "interface_port_definition h lastmod pn =
     (case lastmod of
        RModule m \<Rightarrow> ebind (get_module h m) (\<lambda>M.
          case map_of (interface_ports h M) pn of
            None \<Rightarrow> Inr None
          | Some a \<Rightarrow> ebind (get_interface h a) (\<lambda>x. Inr (Some x)))
      | other \<Rightarrow> Inl AttributeError)"

text \<open>Lines 491 to 512.\<close>

definition create_interface :: "addr \<Rightarrow> portkey list \<Rightarrow> heap \<Rightarrow> error + (addr \<times> heap)" where
  "create_interface m net h =
     ebind (net_names h net) (\<lambda>names.
     ebind (get_module h m) (\<lambda>M.
     ebind (flatname (segments_of names) (set (map fst (namespace M))) default_maxlen) (\<lambda>signame.
       if net = [] then Inl UnboundLocalError
       else
         ebind (owner_resolved h (fst (last net))) (\<lambda>lastmod.
         ebind (interface_port_definition h lastmod (snd (last net))) (\<lambda>d.
           case d of
             None \<Rightarrow> ebind (owner_name h (fst (last net))) (\<lambda>n. Inl (InvalidPort (snd (last net)) n))
           | Some x \<Rightarrow>
               (let fresh = new_interface (x\<lparr>ii_name := signame, port := False, role := None\<rparr>) h
                in ebind (module_add_interface m (fst fresh) (snd fresh)) (\<lambda>h2. Inr (fst fresh, h2))))))))"

text \<open>Lines 477 to 515: one round of \<open>for net in nets\<close>.\<close>

definition resolve_bundle_net :: "addr \<Rightarrow> portkey list \<Rightarrow> heap \<Rightarrow> error + heap" where
  "resolve_bundle_net m net h =
     ebind (find_interface h net net None) (\<lambda>found.
     ebind (case found of Some a \<Rightarrow> Inr (a, h) | None \<Rightarrow> create_interface m net h) (\<lambda>r.
       for_each (connect (CInterface (fst r))) net (snd r)))"

text \<open>\<open>ImplicitInterfaces.elaborate_module\<close>; like \<open>ImplicitSignals\<close> it keeps no table.\<close>

primrec ImplicitInterfaces_elaborate_module :: "nat \<Rightarrow> addr \<Rightarrow> unit elab \<Rightarrow> error + unit elab" where
  "ImplicitInterfaces_elaborate_module 0 = (\<lambda>m st. Inl RecursionError)"
| "ImplicitInterfaces_elaborate_module (Suc n) = (\<lambda>m st.
     ebind (get_module (store st) m) (\<lambda>M.
     ebind (for_each (elaborate_instance (ImplicitInterfaces_elaborate_module n)) (map snd (instances M))
              (st\<lparr>visits := visits st @ [m]\<rparr>)) (\<lambda>st1.
     ebind (get_module (store st1) m) (\<lambda>M1.
     ebind (build_bundle_portconns (store st1) (map snd (instances M1))) (\<lambda>portconns.
     ebind (for_each (resolve_bundle_net m) (build_nets portconns) (store st1)) (\<lambda>h2.
       Inr (st1\<lparr>store := h2\<rparr>)))))))"

section \<open>The pass \<open>InterfaceFlattener\<close>\<close>

record FlatInterfaceInst =
  fl_inst_name :: string
  fl_src :: Interface
  fl_signals :: "(string \<times> addr) list"

record flat_tables =
  f_modules :: "addr set"
  replacements :: "addr \<rightharpoonup> (string \<times> FlatInterfaceInst) list"

text \<open>\<open>copy.deepcopy(intf.of.signals)\<close>: a new Signal object under each key.\<close>

fun deepcopy_signals :: "(string \<times> Signal) list \<Rightarrow> heap \<Rightarrow> (string \<times> addr) list \<times> heap" where
  "deepcopy_signals [] h = ([], h)"
| "deepcopy_signals ((k, x) # xs) h =
     (let fresh = new_signal x h; rest = deepcopy_signals xs (snd fresh)
      in ((k, fst fresh) # fst rest, snd rest))"

text \<open>
  The inner loop of \<open>flatten_interface\<close>: each signal of a flattened field is renamed
  against the keys collected so far and stored under its new name.
\<close>

fun rename_into ::
  "string \<Rightarrow> addr list \<Rightarrow> (string \<times> addr) list \<Rightarrow> heap \<Rightarrow> error + ((string \<times> addr) list \<times> heap)" where
  "rename_into iname [] flat h = Inr (flat, h)"
| "rename_into iname (a # as) flat h =
     ebind (get_signal h a) (\<lambda>x.
     ebind (flatname [iname, sig_name x] (set (map fst flat)) default_maxlen) (\<lambda>signame.
       rename_into iname as (AList.update signame a flat) (set_signal a (x\<lparr>sig_name := signame\<rparr>) h)))"

text \<open>
  \<open>flatten_interface\<close>, by recursion on the Interface definition; \<open>flatten_fields\<close> is its
  loop over the nested fields.
\<close>

fun flatten_interface :: "string \<Rightarrow> Interface \<Rightarrow> heap \<Rightarrow> error + (FlatInterfaceInst \<times> heap)"
  and flatten_fields ::
    "(string \<times> string \<times> Interface) list \<Rightarrow> (string \<times> addr) list \<Rightarrow> heap
       \<Rightarrow> error + ((string \<times> addr) list \<times> heap)" where
  "flatten_interface nm (Interface n sigs subs) h =
     (let copied = deepcopy_signals sigs h in
      case flatten_fields subs (fst copied) (snd copied) of
        Inl e \<Rightarrow> Inl e
      | Inr r \<Rightarrow> Inr (\<lparr>fl_inst_name = nm, fl_src = Interface n sigs subs, fl_signals = fst r\<rparr>, snd r))"
| "flatten_fields [] flat h = Inr (flat, h)"
| "flatten_fields (f # rest) flat h =
     (case flatten_interface (fst (snd f)) (snd (snd f)) h of
        Inl e \<Rightarrow> Inl e
      | Inr r \<Rightarrow>
          (case rename_into (fst (snd f)) (map snd (fl_signals (fst r))) flat (snd r) of
             Inl e \<Rightarrow> Inl e
           | Inr r2 \<Rightarrow> flatten_fields rest (fst r2) (snd r2)))"

text \<open>Lines 359 to 371: visibility and direction of a flattened signal.\<close>

definition flat_vis :: "InterfaceInstance \<Rightarrow> Visibility" where
  "flat_vis intf = (if port intf then PORT else INTERNAL)"

definition flat_dir :: "InterfaceInstance \<Rightarrow> Signal \<Rightarrow> PortDir" where
  "flat_dir intf x =
     (if port intf then
        (if role intf = None then NONE
         else if role intf = src x then OUTPUT
         else if role intf = dest x then INPUT
         else NONE)
      else NONE)"

text \<open>Lines 357 to 377: one round of \<open>for sig in flat.signals.values()\<close>.\<close>

definition add_flat_signal :: "addr \<Rightarrow> InterfaceInstance \<Rightarrow> addr \<Rightarrow> heap \<Rightarrow> error + heap" where
  "add_flat_signal m intf a h =
     ebind (get_signal h a) (\<lambda>x.
     ebind (get_module h m) (\<lambda>M.
     ebind (flatname [ii_name intf, sig_name x] (set (map fst (namespace M))) default_maxlen) (\<lambda>signame.
       module_add_signal m a
         (set_signal a (x\<lparr>sig_name := signame, vis := flat_vis intf, direction := flat_dir intf x\<rparr>) h))))"

text \<open>
  Lines 382 to 389, for one Instance and one of the port names it had when the loop over
  it began: a connection that is the InterfaceInstance \<open>ia\<close> is replaced by one connection
  per flattened signal, under the name that signal has in the Instance's own module.
\<close>

definition replace_port ::
  "(addr \<rightharpoonup> (string \<times> FlatInterfaceInst) list) \<Rightarrow> addr \<Rightarrow> FlatInterfaceInst \<Rightarrow> addr \<Rightarrow> string
     \<Rightarrow> heap \<Rightarrow> error + heap" where
  "replace_port tbl ia flat a pn h =
     ebind (get_instance h a) (\<lambda>i.
     ebind (dict_getitem (conns i) pn) (\<lambda>c.
       if c \<noteq> CInterface ia then Inr h
       else
         ebind (resolved_of h i) (\<lambda>res.
         ebind (case res of
                  RModule c \<Rightarrow> (case tbl c of None \<Rightarrow> Inl KeyError | Some r \<Rightarrow> Inr r)
                | other \<Rightarrow> Inl KeyError) (\<lambda>inst_replacements.
         ebind (dict_getitem inst_replacements pn) (\<lambda>inst_flat.
         ebind (for_each (\<lambda>(fname, flatsig) h1.
                  ebind (dict_getitem (fl_signals inst_flat) fname) (\<lambda>sa.
                  ebind (get_signal h1 sa) (\<lambda>x.
                  ebind (get_instance h1 a) (\<lambda>i1.
                    Inr (set_instance a
                      (i1\<lparr>conns := AList.update (sig_name x) (CSignal flatsig) (conns i1)\<rparr>) h1)))))
                (fl_signals flat) h) (\<lambda>h2.
         ebind (get_instance h2 a) (\<lambda>i2.
         ebind (dict_pop pn (conns i2)) (\<lambda>popped.
           Inr (set_instance a (i2\<lparr>conns := snd popped\<rparr>) h2)))))))))"

text \<open>Lines 380 to 389: the loop over the Instances and over \<open>list(inst.conns.keys())\<close>.\<close>

definition replace_bundle_conns ::
  "(addr \<rightharpoonup> (string \<times> FlatInterfaceInst) list) \<Rightarrow> addr \<Rightarrow> FlatInterfaceInst \<Rightarrow> addr list
     \<Rightarrow> heap \<Rightarrow> error + heap" where
  "replace_bundle_conns tbl ia flat insts h =
     for_each (\<lambda>a h1. ebind (get_instance h1 a) (\<lambda>i.
                 for_each (replace_port tbl ia flat a) (map fst (conns i)) h1)) insts h"

text \<open>Lines 395 to 405: connections that are a PortRef handed out by the bundle.\<close>

definition is_portref :: "PortRef \<Rightarrow> conn \<Rightarrow> bool" where
  "is_portref r c = (case c of CPortRef r' \<Rightarrow> pr_id r' = pr_id r | other \<Rightarrow> False)"

definition reconnect_portref :: "FlatInterfaceInst \<Rightarrow> addr list \<Rightarrow> PortRef \<Rightarrow> heap \<Rightarrow> error + heap" where
  "reconnect_portref flat insts r h =
     (case map_of (fl_signals flat) (portname r) of
        None \<Rightarrow> Inl (PortNotFound (portname r))
      | Some flatsig \<Rightarrow>
          for_each (\<lambda>a h1. ebind (get_instance h1 a) (\<lambda>i.
              Inr (set_instance a
                (i\<lparr>conns := map (\<lambda>(pn, c). (pn, if is_portref r c then CSignal flatsig else c)) (conns i)\<rparr>)
                h1))) insts h)"

text \<open>
  Lines 349 to 405: one round of \<open>while module.interfaces\<close>. \<open>repl\<close> is the local
  dictionary \<open>replacements\<close>, \<open>tbl\<close> the table \<open>self.replacements\<close>.
\<close>

definition flatten_round ::
  "(addr \<rightharpoonup> (string \<times> FlatInterfaceInst) list) \<Rightarrow> addr \<Rightarrow> (string \<times> FlatInterfaceInst) list
     \<Rightarrow> heap \<Rightarrow> error + ((string \<times> FlatInterfaceInst) list \<times> heap)" where
  "flatten_round tbl m repl h =
     ebind (get_module h m) (\<lambda>M.
       if interfaces M = [] then Inl KeyError
       else
         ebind (dict_pop (fst (last (interfaces M))) (namespace M)) (\<lambda>popped.
         let h1 = set_module m (M\<lparr>interfaces := butlast (interfaces M), namespace := snd popped\<rparr>) h in
         ebind (get_interface h1 (snd (last (interfaces M)))) (\<lambda>intf.
         ebind (flatten_interface (ii_name intf) (ii_of intf) h1) (\<lambda>fl.
         ebind (for_each (add_flat_signal m intf) (map snd (fl_signals (fst fl))) (snd fl)) (\<lambda>h3.
         ebind (get_module h3 m) (\<lambda>M3.
         ebind (replace_bundle_conns tbl (snd (last (interfaces M))) (fst fl)
                  (map snd (instances M3)) h3) (\<lambda>h4.
         ebind (for_each (reconnect_portref (fst fl) (map snd (instances M3)))
                  (map snd (portrefs intf)) h4) (\<lambda>h5.
           Inr (AList.update (fst (last (interfaces M))) (fst fl) repl, h5)))))))))"

subsection \<open>The loop \<open>while module.interfaces\<close> ends\<close>

text \<open>
  A round pops one InterfaceInstance of the module and nothing else in it touches the
  interface map of any module. The facts below establish that, for the termination of
  \<open>flatten_loop\<close>.
\<close>

lemma ebind_Inr [simp]: "ebind m f = Inr y \<longleftrightarrow> (\<exists>x. m = Inr x \<and> f x = Inr y)"
  by (cases m) (simp_all add: ebind_def)

lemma ebind_simps [simp]: "ebind (Inl e) f = Inl e" "ebind (Inr x) f = f x"
  by (simp_all add: ebind_def)

lemma for_each_inv:
  assumes "for_each body xs s = Inr s'" and "P s"
    and "\<And>x t t'. x \<in> set xs \<Longrightarrow> P t \<Longrightarrow> body x t = Inr t' \<Longrightarrow> P t'"
  shows "P s'"
  using assms by (induction xs arbitrary: s) auto

definition n_interfaces :: "heap \<Rightarrow> addr \<Rightarrow> nat" where
  "n_interfaces h m = (case h_modules h m of None \<Rightarrow> 0 | Some M \<Rightarrow> length (interfaces M))"

lemma get_simps [simp]:
  "get_module h a = Inr M \<longleftrightarrow> h_modules h a = Some M"
  "get_instance h a = Inr i \<longleftrightarrow> h_instances h a = Some i"
  "get_signal h a = Inr x \<longleftrightarrow> h_signals h a = Some x"
  "get_interface h a = Inr ii \<longleftrightarrow> h_interfaces h a = Some ii"
  "get_call h a = Inr c \<longleftrightarrow> h_calls h a = Some c"
  by (auto simp: get_module_def get_instance_def get_signal_def get_interface_def get_call_def
      split: option.splits)

lemma set_fields [simp]:
  "h_modules (set_signal a x h) = h_modules h"
  "h_modules (set_instance a i h) = h_modules h"
  "h_modules (set_interface a ii h) = h_modules h"
  "h_modules (set_call a c h) = h_modules h"
  "h_modules (set_module a M h) = (h_modules h)(a \<mapsto> M)"
  by (simp_all add: set_signal_def set_instance_def set_interface_def set_call_def set_module_def)

lemma new_signal_modules [simp]: "h_modules (snd (new_signal x h)) = h_modules h"
  by (simp add: new_signal_def)

lemma deepcopy_signals_modules [simp]: "h_modules (snd (deepcopy_signals xs h)) = h_modules h"
  by (induction xs h rule: deepcopy_signals.induct) (simp_all add: Let_def)

lemma rename_into_modules: "rename_into iname as flat h = Inr r \<Longrightarrow> h_modules (snd r) = h_modules h"
  by (induction as arbitrary: flat h) auto

lemma flatten_modules:
  "flatten_interface nm d h = Inr r \<Longrightarrow> h_modules (snd r) = h_modules h"
  "flatten_fields fs flat h = Inr r2 \<Longrightarrow> h_modules (snd r2) = h_modules h"
proof (induction nm d h and fs flat h arbitrary: r and r2 rule: flatten_interface_flatten_fields.induct)
  case (1 nm n sigs subs h)
  from "1.prems" obtain q where
    q: "flatten_fields subs (fst (deepcopy_signals sigs h)) (snd (deepcopy_signals sigs h)) = Inr q"
    and r: "snd r = snd q"
    by (auto simp: Let_def split: sum.splits)
  from "1.IH"[OF refl q] r show ?case by simp
next
  case (2 flat h)
  then show ?case by auto
next
  case (3 f rest flat h)
  from "3.prems" obtain q q2 where
    q: "flatten_interface (fst (snd f)) (snd (snd f)) h = Inr q"
    and q2: "rename_into (fst (snd f)) (map snd (fl_signals (fst q))) flat (snd q) = Inr q2"
    and rest: "flatten_fields rest (fst q2) (snd q2) = Inr r2"
    by (auto split: sum.splits)
  from "3.IH"(1)[OF q] rename_into_modules[OF q2] "3.IH"(2)[OF q q2 rest]
  show ?case by simp
qed

lemma n_interfaces_cong: "h_modules h' = h_modules h \<Longrightarrow> n_interfaces h' m = n_interfaces h m"
  by (simp add: n_interfaces_def)

lemma flatten_interface_n:
  "flatten_interface nm d h = Inr r \<Longrightarrow> n_interfaces (snd r) m = n_interfaces h m"
  by (rule n_interfaces_cong) (rule flatten_modules(1))

lemma module_add_signal_n:
  "module_add_signal m' a h = Inr h' \<Longrightarrow> n_interfaces h' m = n_interfaces h m"
  by (auto simp: module_add_signal_def n_interfaces_def Let_def)

lemma add_flat_signal_n:
  "add_flat_signal m' intf a h = Inr h' \<Longrightarrow> n_interfaces h' m = n_interfaces h m"
  by (auto simp: add_flat_signal_def dest!: module_add_signal_n[where m=m]) (simp add: n_interfaces_def)

lemma for_each_add_flat_n:
  "for_each (add_flat_signal m' intf) as h = Inr h' \<Longrightarrow> n_interfaces h' m = n_interfaces h m"
  by (erule for_each_inv[where P="\<lambda>t. n_interfaces t m = n_interfaces h m"])
     (auto dest: add_flat_signal_n[where m=m])

lemma replace_port_modules: "replace_port tbl ia flat a pn h = Inr h' \<Longrightarrow> h_modules h' = h_modules h"
  unfolding replace_port_def
  by (auto split: if_splits elim!: for_each_inv[where P="\<lambda>t. h_modules t = h_modules h"])

lemma replace_bundle_conns_n:
  "replace_bundle_conns tbl ia flat insts h = Inr h' \<Longrightarrow> n_interfaces h' m = n_interfaces h m"
  unfolding replace_bundle_conns_def
  by (rule n_interfaces_cong, erule for_each_inv[where P="\<lambda>t. h_modules t = h_modules h"], simp)
     (auto elim!: for_each_inv[where P="\<lambda>t. h_modules t = h_modules h"] dest: replace_port_modules)

lemma reconnect_portref_modules:
  "reconnect_portref flat insts r h = Inr h' \<Longrightarrow> h_modules h' = h_modules h"
  unfolding reconnect_portref_def
  by (auto split: option.splits elim!: for_each_inv[where P="\<lambda>t. h_modules t = h_modules h"])

lemma for_each_reconnect_n:
  "for_each (reconnect_portref flat insts) rs h = Inr h' \<Longrightarrow> n_interfaces h' m = n_interfaces h m"
  by (rule n_interfaces_cong, erule for_each_inv[where P="\<lambda>t. h_modules t = h_modules h"])
     (auto dest: reconnect_portref_modules)

lemma flatten_round_decreases:
  assumes "flatten_round tbl m repl h = Inr r"
  shows "n_interfaces (snd r) m < n_interfaces h m"
  using assms unfolding flatten_round_def
  apply (clarsimp simp: Let_def split: if_splits)
  apply (drule flatten_interface_n[where m=m])
  apply (drule for_each_add_flat_n[where m=m])
  apply (drule replace_bundle_conns_n[where m=m])
  apply (drule for_each_reconnect_n[where m=m])
  apply (simp add: n_interfaces_def)
  done


text \<open>Lines 348 to 405: the loop, which reads \<open>module.interfaces\<close> afresh in each round.\<close>

function flatten_loop ::
  "(addr \<rightharpoonup> (string \<times> FlatInterfaceInst) list) \<Rightarrow> addr \<Rightarrow> (string \<times> FlatInterfaceInst) list
     \<Rightarrow> heap \<Rightarrow> error + ((string \<times> FlatInterfaceInst) list \<times> heap)" where
  "flatten_loop tbl m repl h =
     (case h_modules h m of
        None \<Rightarrow> Inl Dangling
      | Some M \<Rightarrow>
          if interfaces M = [] then Inr (repl, h)
          else (case flatten_round tbl m repl h of
                  Inl e \<Rightarrow> Inl e
                | Inr r \<Rightarrow> flatten_loop tbl m (fst r) (snd r)))"
  by pat_completeness auto
termination
  by (relation "measure (\<lambda>(tbl, m, repl, h). n_interfaces h m)") (auto dest: flatten_round_decreases)

declare flatten_loop.simps [simp del]

text \<open>
  \<open>InterfaceFlattener.elaborate_module\<close>. The table \<open>self.modules\<close> is consulted first and
  filled last.
\<close>

primrec InterfaceFlattener_elaborate_module ::
  "nat \<Rightarrow> addr \<Rightarrow> flat_tables elab \<Rightarrow> error + flat_tables elab" where
  "InterfaceFlattener_elaborate_module 0 = (\<lambda>m st. Inl RecursionError)"
| "InterfaceFlattener_elaborate_module (Suc n) = (\<lambda>m st.
     if m \<in> f_modules (tables st) then Inr st
     else
       ebind (get_module (store st) m) (\<lambda>M.
       ebind (for_each (elaborate_instance (InterfaceFlattener_elaborate_module n))
                (map snd (instances M)) (st\<lparr>visits := visits st @ [m]\<rparr>)) (\<lambda>st1.
       ebind (flatten_loop (replacements (tables st1)) m [] (store st1)) (\<lambda>r.
         Inr (st1\<lparr>store := snd r,
                  tables := (tables st1)\<lparr>f_modules := insert m (f_modules (tables st1)),
                                          replacements := (replacements (tables st1))(m \<mapsto> fst r)\<rparr>\<rparr>)))))"

section \<open>The pass \<open>GeneratorElaborator\<close>\<close>

text \<open>
  What a generator function returns: a Module, a GeneratorCall, or a value of another
  type. The functions themselves are user code: the table \<open>F\<close> gives, for a Generator, its
  argument and the Context it may ask for, the effect of \<open>call.gen.func\<close> on the store and
  the value returned, or the exception it raises. \<open>U\<close> is \<open>_unique_name\<close> of
  \<open>params.py\<close>, which is not among the sources.
\<close>

datatype genval = VModule addr | VCall addr | VOther

type_synonym gfuncs = "Generator \<Rightarrow> arg \<Rightarrow> Context option \<Rightarrow> heap \<Rightarrow> error + (genval \<times> heap)"

record gen_tables =
  generator_calls :: "(Generator \<times> arg) \<rightharpoonup> addr"
  g_modules :: "addr set"

text \<open>
  \<open>GeneratorElaborator.elaborate_instance\<close>; \<open>egc\<close> and \<open>em\<close> are the methods
  \<open>elaborate_generator_call\<close> and \<open>elaborate_module\<close> of the object.
\<close>

definition GeneratorElaborator_elaborate_instance ::
  "(addr \<Rightarrow> gen_tables elab \<Rightarrow> error + (addr \<times> gen_tables elab))
     \<Rightarrow> (addr \<Rightarrow> gen_tables elab \<Rightarrow> error + gen_tables elab)
     \<Rightarrow> addr \<Rightarrow> gen_tables elab \<Rightarrow> error + gen_tables elab" where
  "GeneratorElaborator_elaborate_instance egc em a st =
     ebind (get_instance (store st) a) (\<lambda>inst.
       let st1 = st\<lparr>store := set_instance a (inst\<lparr>inst_elaborated := True\<rparr>) (store st)\<rparr> in
       case inst_of inst of
         OfCall c \<Rightarrow> ebind (egc c st1) (\<lambda>r. Inr (snd r))
       | OfModule m \<Rightarrow> em m st1
       | OfPrimitive ps \<Rightarrow> Inr st1
       | OfExternal ps \<Rightarrow> Inr st1
       | OfOther \<Rightarrow> Inl TypeError)"

text \<open>
  The body of \<open>elaborate_generator_call\<close>. A hit in \<open>self.generator_calls\<close> only stores the
  result in the call. Otherwise the generator function runs. The loop
  \<open>while isinstance(m, GeneratorCall): m = self.elaborate_generator_call(m)\<close> makes at most
  one round, since the method returns a Module whenever it returns. Then the call and the
  table get the result, the Module is named, and \<open>elaborate_module\<close> visits it.
\<close>

definition elaborate_generator_call_body ::
  "gfuncs \<Rightarrow> (arg \<Rightarrow> string) \<Rightarrow> Context
     \<Rightarrow> (addr \<Rightarrow> gen_tables elab \<Rightarrow> error + (addr \<times> gen_tables elab))
     \<Rightarrow> (addr \<Rightarrow> gen_tables elab \<Rightarrow> error + gen_tables elab)
     \<Rightarrow> addr \<Rightarrow> gen_tables elab \<Rightarrow> error + (addr \<times> gen_tables elab)" where
  "elaborate_generator_call_body F U ctx egc em c st =
     ebind (get_call (store st) c) (\<lambda>call.
       case generator_calls (tables st) (gen call, arg call) of
         Some r \<Rightarrow> Inr (r, st\<lparr>store := set_call c (call\<lparr>result := Some r\<rparr>) (store st)\<rparr>)
       | None \<Rightarrow>
           ebind (F (gen call) (arg call) (if usecontext (gen call) then Some ctx else None) (store st))
             (\<lambda>ran.
           ebind (case fst ran of
                    VCall c' \<Rightarrow> egc c' (st\<lparr>store := snd ran\<rparr>)
                  | VModule m \<Rightarrow> Inr (m, st\<lparr>store := snd ran\<rparr>)
                  | VOther \<Rightarrow> Inl TypeError) (\<lambda>unwound.
           ebind (get_call (store (snd unwound)) c) (\<lambda>call2.
           let m = fst unwound;
               st2 = snd unwound;
               h3 = set_call c (call2\<lparr>result := Some m\<rparr>) (store st2);
               tb = (tables st2)\<lparr>generator_calls :=
                       (generator_calls (tables st2))((gen call2, arg call2) \<mapsto> m)\<rparr>
           in ebind (get_module h3 m) (\<lambda>M.
                let nm = (case mod_name M of None \<Rightarrow> func_name (gen call2) | Some x \<Rightarrow> x);
                    M' = M\<lparr>mod_name := Some (nm @ ''('' @ U (arg call2) @ '')''),
                           pymodule := gen_pymodule (gen call2)\<rparr>
                in ebind (em m (st2\<lparr>store := set_module m M' h3, tables := tb\<rparr>))
                     (\<lambda>st3. Inr (m, st3)))))))"

text \<open>
  The body of \<open>GeneratorElaborator.elaborate_module\<close>; \<open>ei\<close> is \<open>elaborate_instance\<close>.
\<close>

definition GeneratorElaborator_elaborate_module_body ::
  "(addr \<Rightarrow> gen_tables elab \<Rightarrow> error + gen_tables elab)
     \<Rightarrow> addr \<Rightarrow> gen_tables elab \<Rightarrow> error + gen_tables elab" where
  "GeneratorElaborator_elaborate_module_body ei m st =
     (if m \<in> g_modules (tables st) then Inr st
      else
        ebind (get_module (store st) m) (\<lambda>M.
          if mod_name M = None \<or> mod_name M = Some [] then Inl AnonymousModule
          else
            ebind (for_each ei (map snd (instances M)) (st\<lparr>visits := visits st @ [m]\<rparr>)) (\<lambda>st1.
            ebind (get_module (store st1) m) (\<lambda>M1.
            ebind (for_each elaborate_interface_instance (map snd (interfaces M1)) (store st1))
              (\<lambda>h2.
              Inr (st1\<lparr>store := h2,
                       tables := (tables st1)\<lparr>g_modules := insert m (g_modules (tables st1))\<rparr>\<rparr>))))))"

text \<open>
  The two methods call each other. The first argument bounds the depth of the calls, as
  the interpreter's recursion limit does; the pair is (\<open>elaborate_generator_call\<close>,
  \<open>elaborate_module\<close>) at that depth.
\<close>

primrec GeneratorElaborator ::
  "gfuncs \<Rightarrow> (arg \<Rightarrow> string) \<Rightarrow> Context \<Rightarrow> nat
     \<Rightarrow> (addr \<Rightarrow> gen_tables elab \<Rightarrow> error + (addr \<times> gen_tables elab))
        \<times> (addr \<Rightarrow> gen_tables elab \<Rightarrow> error + gen_tables elab)" where
  "GeneratorElaborator F U ctx 0 = (\<lambda>c st. Inl RecursionError, \<lambda>m st. Inl RecursionError)"
| "GeneratorElaborator F U ctx (Suc n) =
     (elaborate_generator_call_body F U ctx
        (fst (GeneratorElaborator F U ctx n)) (snd (GeneratorElaborator F U ctx n)),
      GeneratorElaborator_elaborate_module_body
        (GeneratorElaborator_elaborate_instance
           (fst (GeneratorElaborator F U ctx n)) (snd (GeneratorElaborator F U ctx n))))"

definition elaborate_generator_call ::
  "gfuncs \<Rightarrow> (arg \<Rightarrow> string) \<Rightarrow> Context \<Rightarrow> nat \<Rightarrow> addr \<Rightarrow> gen_tables elab
     \<Rightarrow> error + (addr \<times> gen_tables elab)" where
  "elaborate_generator_call F U ctx n = fst (GeneratorElaborator F U ctx n)"

definition GeneratorElaborator_elaborate_module ::
  "gfuncs \<Rightarrow> (arg \<Rightarrow> string) \<Rightarrow> Context \<Rightarrow> nat \<Rightarrow> addr \<Rightarrow> gen_tables elab
     \<Rightarrow> error + gen_tables elab" where
  "GeneratorElaborator_elaborate_module F U ctx n = snd (GeneratorElaborator F U ctx n)"

section \<open>The entry points\<close>

text \<open>
  What a caller may hand to \<open>elaborate\<close>: a Module, a GeneratorCall, a Generator (which
  \<open>elabable\<close> accepts), or a value of any other type.
\<close>

datatype top = TModule addr | TCall addr | TGenerator Generator | TOther

datatype ElabPasses = RUN_GENERATORS | IMPLICIT_INTERFACES | FLATTEN_INTERFACES | IMPLICIT_SIGNALS

text \<open>Iterating over the enumeration \<open>ElabPasses\<close> yields its members in definition order.\<close>

definition all_passes :: "ElabPasses list" where
  "all_passes = [RUN_GENERATORS, IMPLICIT_INTERFACES, FLATTEN_INTERFACES, IMPLICIT_SIGNALS]"

text \<open>
  \<open>cls.elaborate(top, ctx)\<close>: a new pass object, with empty tables, runs \<open>elaborate_top\<close>.
  \<open>_Elaborator.elaborate_top\<close> accepts a Module only; the generator pass overrides it and
  accepts a GeneratorCall too. Each returns a Module.
\<close>

definition new_elab :: "'t \<Rightarrow> heap \<Rightarrow> 't elab" where
  "new_elab t h = \<lparr>store = h, tables = t, visits = []\<rparr>"

definition run_pass ::
  "gfuncs \<Rightarrow> (arg \<Rightarrow> string) \<Rightarrow> nat \<Rightarrow> ElabPasses \<Rightarrow> Context \<Rightarrow> top \<Rightarrow> heap \<Rightarrow> error + (top \<times> heap)" where
  "run_pass F U n p ctx t h =
     (case p of
        RUN_GENERATORS \<Rightarrow>
          (case t of
             TModule m \<Rightarrow>
               ebind (GeneratorElaborator_elaborate_module F U ctx n m
                        (new_elab \<lparr>generator_calls = Map.empty, g_modules = {}\<rparr> h))
                 (\<lambda>st. Inr (TModule m, store st))
           | TCall c \<Rightarrow>
               ebind (elaborate_generator_call F U ctx n c
                        (new_elab \<lparr>generator_calls = Map.empty, g_modules = {}\<rparr> h))
                 (\<lambda>r. Inr (TModule (fst r), store (snd r)))
           | other \<Rightarrow> Inl TypeError)
      | IMPLICIT_INTERFACES \<Rightarrow>
          (case t of
             TModule m \<Rightarrow> ebind (ImplicitInterfaces_elaborate_module n m (new_elab () h))
                            (\<lambda>st. Inr (TModule m, store st))
           | other \<Rightarrow> Inl TypeError)
      | FLATTEN_INTERFACES \<Rightarrow>
          (case t of
             TModule m \<Rightarrow>
               ebind (InterfaceFlattener_elaborate_module n m
                        (new_elab \<lparr>f_modules = {}, replacements = Map.empty\<rparr> h))
                 (\<lambda>st. Inr (TModule m, store st))
           | other \<Rightarrow> Inl TypeError)
      | IMPLICIT_SIGNALS \<Rightarrow>
          (case t of
             TModule m \<Rightarrow> ebind (ImplicitSignals_elaborate_module n m (new_elab () h))
                            (\<lambda>st. Inr (TModule m, store st))
           | other \<Rightarrow> Inl TypeError))"

text \<open>The loop \<open>for pass_ in passes: res = pass_.value.elaborate(top=res, ctx=ctx)\<close>.\<close>

fun run_passes ::
  "gfuncs \<Rightarrow> (arg \<Rightarrow> string) \<Rightarrow> nat \<Rightarrow> Context \<Rightarrow> ElabPasses list \<Rightarrow> top \<Rightarrow> heap
     \<Rightarrow> error + (top \<times> heap)" where
  "run_passes F U n ctx [] res h = Inr (res, h)"
| "run_passes F U n ctx (p # ps) res h =
     ebind (run_pass F U n p ctx res h) (\<lambda>r. run_passes F U n ctx ps (fst r) (snd r))"

text \<open>
  \<open>elaborate(top, ctx=None, passes=None)\<close>. \<open>ctx or Context()\<close> and \<open>passes or ElabPasses\<close>
  replace a falsy argument by the default: \<open>None\<close>, and for \<open>passes\<close> the empty list too.
  \<open>n\<close> is the recursion limit of the interpreter.
\<close>

definition elaborate ::
  "gfuncs \<Rightarrow> (arg \<Rightarrow> string) \<Rightarrow> nat \<Rightarrow> top \<Rightarrow> Context option \<Rightarrow> ElabPasses list option \<Rightarrow> heap
     \<Rightarrow> error + (top \<times> heap)" where
  "elaborate F U n t ctx passes h =
     (let ctx1 = (case ctx of None \<Rightarrow> Context | Some c \<Rightarrow> c);
          passes1 = (case passes of None \<Rightarrow> all_passes | Some ps \<Rightarrow> if ps = [] then all_passes else ps)
      in run_passes F U n ctx1 passes1 t h)"

text \<open>
  The values \<open>elab_all\<close> walks: a \<open>list\<close>, a \<open>SimpleNamespace\<close> with its attributes in
  order, or a leaf. A leaf is what \<open>elaborate\<close> may be handed; \<open>PTop TOther\<close> is a value of
  any type that is neither a candidate nor a container.
\<close>

datatype pyobj =
    PTop top
  | PList "pyobj list"
  | PNamespace "(string \<times> pyobj) list"

definition elabable :: "pyobj \<Rightarrow> bool" where
  "elabable obj = (case obj of PTop TOther \<Rightarrow> False | PTop t \<Rightarrow> True | other \<Rightarrow> False)"

definition is_container :: "pyobj \<Rightarrow> bool" where
  "is_container obj = (case obj of PList xs \<Rightarrow> True | PNamespace kvs \<Rightarrow> True | other \<Rightarrow> False)"

text \<open>
  \<open>_list_elabables_helper\<close>, with its loop over a list and its loop over the attribute
  values of a namespace. The accumulator is returned instead of mutated.
\<close>

fun list_elabables_helper :: "pyobj \<Rightarrow> top list \<Rightarrow> error + top list"
  and helper_list :: "pyobj list \<Rightarrow> top list \<Rightarrow> error + top list"
  and helper_namespace :: "(string \<times> pyobj) list \<Rightarrow> top list \<Rightarrow> error + top list" where
  "list_elabables_helper (PTop t) accum = (if t = TOther then Inl TypeError else Inr (accum @ [t]))"
| "list_elabables_helper (PList xs) accum = helper_list xs accum"
| "list_elabables_helper (PNamespace kvs) accum = helper_namespace kvs accum"
| "helper_list [] accum = Inr accum"
| "helper_list (x # xs) accum =
     (case list_elabables_helper x accum of Inl e \<Rightarrow> Inl e | Inr acc \<Rightarrow> helper_list xs acc)"
| "helper_namespace [] accum = Inr accum"
| "helper_namespace (kv # kvs) accum =
     (if is_container (snd kv) \<or> elabable (snd kv)
      then (case list_elabables_helper (snd kv) accum of
              Inl e \<Rightarrow> Inl e
            | Inr acc \<Rightarrow> helper_namespace kvs acc)
      else helper_namespace kvs accum)"

text \<open>\<open>[elaborate(top=t, **kwargs) for t in ls]\<close>, each call on the store the last one left.\<close>

fun elaborate_each ::
  "gfuncs \<Rightarrow> (arg \<Rightarrow> string) \<Rightarrow> nat \<Rightarrow> Context option \<Rightarrow> ElabPasses list option \<Rightarrow> top list \<Rightarrow> heap
     \<Rightarrow> error + (top list \<times> heap)" where
  "elaborate_each F U n ctx passes [] h = Inr ([], h)"
| "elaborate_each F U n ctx passes (t # ts) h =
     ebind (elaborate F U n t ctx passes h) (\<lambda>r.
     ebind (elaborate_each F U n ctx passes ts (snd r)) (\<lambda>rs. Inr (fst r # fst rs, snd rs)))"

definition elab_all ::
  "gfuncs \<Rightarrow> (arg \<Rightarrow> string) \<Rightarrow> nat \<Rightarrow> pyobj \<Rightarrow> Context option \<Rightarrow> ElabPasses list option \<Rightarrow> heap
     \<Rightarrow> error + (top list \<times> heap)" where
  "elab_all F U n obj ctx passes h =
     ebind (list_elabables_helper obj []) (\<lambda>ls. elaborate_each F U n ctx passes ls h)"

text \<open>
  The walk of \<open>elab_all\<close> stated on its own, for comparison with \<open>list_elabables_helper\<close>:
  \<open>candidates\<close> are the leaves collected, in order, where a leaf that is no candidate is
  passed over when it is an attribute of a namespace; \<open>offending\<close> says that a leaf that is
  no candidate is the input itself or an element of a list.
\<close>

fun candidates :: "pyobj \<Rightarrow> top list"
  and candidates_list :: "pyobj list \<Rightarrow> top list"
  and candidates_namespace :: "(string \<times> pyobj) list \<Rightarrow> top list" where
  "candidates (PTop t) = [t]"
| "candidates (PList xs) = candidates_list xs"
| "candidates (PNamespace kvs) = candidates_namespace kvs"
| "candidates_list [] = []"
| "candidates_list (x # xs) = candidates x @ candidates_list xs"
| "candidates_namespace [] = []"
| "candidates_namespace (kv # kvs) =
     (if snd kv = PTop TOther then [] else candidates (snd kv)) @ candidates_namespace kvs"

fun offending :: "pyobj \<Rightarrow> bool"
  and offending_list :: "pyobj list \<Rightarrow> bool"
  and offending_namespace :: "(string \<times> pyobj) list \<Rightarrow> bool" where
  "offending (PTop t) = (t = TOther)"
| "offending (PList xs) = offending_list xs"
| "offending (PNamespace kvs) = offending_namespace kvs"
| "offending_list [] = False"
| "offending_list (x # xs) = (offending x \<or> offending_list xs)"
| "offending_namespace [] = False"
| "offending_namespace (kv # kvs) =
     ((if snd kv = PTop TOther then False else offending (snd kv)) \<or> offending_namespace kvs)"

section \<open>Concrete inputs\<close>

definition empty_heap :: heap where
  "empty_heap = \<lparr>h_modules = Map.empty, h_instances = Map.empty, h_signals = Map.empty,
                 h_interfaces = Map.empty, h_calls = Map.empty, next_addr = 0\<rparr>"

text \<open>A design without generators, and a stand-in for \<open>_unique_name\<close>.\<close>

definition no_generators :: gfuncs where
  "no_generators g a c h = Inl GeneratorError"

definition example_unique_name :: "arg \<Rightarrow> string" where
  "example_unique_name a = join '','' (map fst a)"

text \<open>Scenario 5 of the spec: a bundle \<open>io\<close> of type \<open>Diff\<close>, a port with role \<open>A\<close>, in a module.\<close>

definition diff_signal :: "string \<Rightarrow> Signal" where
  "diff_signal n = \<lparr>sig_name = n, width = 1, vis = INTERNAL, direction = NONE,
                    src = Some ''A'', dest = Some ''B''\<rparr>"

definition Diff :: Interface where
  "Diff = Interface ''Diff'' [(''p'', diff_signal ''p''), (''n'', diff_signal ''n'')] []"

definition diff_io :: InterfaceInstance where
  "diff_io = \<lparr>ii_name = ''io'', ii_of = Diff, port = True, role = Some ''A'', portrefs = [],
              ii_elaborated = False\<rparr>"

definition diff_module :: Module where
  "diff_module = \<lparr>mod_name = Some ''M'', ports = [], signals = [], instances = [],
                  interfaces = [(''io'', 1)], namespace = [(''io'', NInterface 1)], pymodule = None\<rparr>"

definition diff_heap :: heap where
  "diff_heap = empty_heap\<lparr>h_modules := [0 \<mapsto> diff_module], h_interfaces := [1 \<mapsto> diff_io],
                          next_addr := 2\<rparr>"

text \<open>
  A member of a net whose owner is an Instance of the store, and the pair of names the
  shorting message shows for it.
\<close>

definition readable :: "heap \<Rightarrow> portkey \<Rightarrow> bool" where
  "readable h p = (case fst p of PInst a \<Rightarrow> h_instances h a \<noteq> None | PIntf a \<Rightarrow> False)"

definition named :: "heap \<Rightarrow> portkey \<Rightarrow> string \<times> string \<Rightarrow> bool" where
  "named h p nm = (case fst p of
      PInst a \<Rightarrow> (case h_instances h a of None \<Rightarrow> False | Some i \<Rightarrow> nm = (inst_name i, snd p))
    | PIntf a \<Rightarrow> False)"

text \<open>
  Two instances \<open>x\<close> and \<open>y\<close> of a module: \<open>x.p\<close> and \<open>y.q\<close> are connected to the declared
  Signals \<open>s1\<close> and \<open>s2\<close>, \<open>x.b\<close> and \<open>y.c\<close> to two bundles.
\<close>

definition short_heap :: heap where
  "short_heap = empty_heap\<lparr>
     h_modules := [0 \<mapsto> \<lparr>mod_name = Some ''P'', ports = [], signals = [(''s1'', 10), (''s2'', 11)],
                          instances = [(''x'', 1), (''y'', 2)], interfaces = [],
                          namespace = [(''s1'', NSignal 10), (''s2'', NSignal 11),
                                       (''x'', NInstance 1), (''y'', NInstance 2)],
                          pymodule = None\<rparr>],
     h_instances := [1 \<mapsto> \<lparr>inst_name = ''x'', inst_of = OfPrimitive [], 
                             conns = [(''p'', CSignal 10), (''b'', CInterface 20)], inst_elaborated = False\<rparr>,
                     2 \<mapsto> \<lparr>inst_name = ''y'', inst_of = OfPrimitive [],
                             conns = [(''q'', CSignal 11), (''c'', CInterface 21)], inst_elaborated = False\<rparr>],
     next_addr := 30\<rparr>"

text \<open>
  Scenario 3 of the spec: instances \<open>x\<close> of \<open>X\<close> and \<open>y\<close> of \<open>Y\<close> in a module \<open>P\<close>, with \<open>x.p\<close>
  connected to the PortRef \<open>y.q\<close>.
\<close>

definition wire :: "string \<Rightarrow> Signal" where
  "wire n = \<lparr>sig_name = n, width = 1, vis = PORT, direction = INPUT, src = None, dest = None\<rparr>"

definition net_heap :: heap where
  "net_heap = empty_heap\<lparr>
     h_modules := [0 \<mapsto> \<lparr>mod_name = Some ''P'', ports = [], signals = [],
                          instances = [(''x'', 3), (''y'', 4)], interfaces = [],
                          namespace = [(''x'', NInstance 3), (''y'', NInstance 4)], pymodule = None\<rparr>,
                   1 \<mapsto> \<lparr>mod_name = Some ''X'', ports = [(''p'', 5)], signals = [], instances = [],
                          interfaces = [], namespace = [(''p'', NSignal 5)], pymodule = None\<rparr>,
                   2 \<mapsto> \<lparr>mod_name = Some ''Y'', ports = [(''q'', 6)], signals = [], instances = [],
                          interfaces = [], namespace = [(''q'', NSignal 6)], pymodule = None\<rparr>],
     h_instances := [3 \<mapsto> \<lparr>inst_name = ''x'', inst_of = OfModule 1,
                             conns = [(''p'', CPortRef (PortRef 7 (PInst 4) ''q''))], inst_elaborated = False\<rparr>,
                     4 \<mapsto> \<lparr>inst_name = ''y'', inst_of = OfModule 2, conns = [], inst_elaborated = False\<rparr>],
     h_signals := [5 \<mapsto> wire ''p'', 6 \<mapsto> wire ''q''],
     next_addr := 8\<rparr>"

text \<open>A module \<open>T\<close> with two instances \<open>a\<close> and \<open>b\<close> of the same module \<open>C\<close>.\<close>

definition share_heap :: heap where
  "share_heap = empty_heap\<lparr>
     h_modules := [0 \<mapsto> \<lparr>mod_name = Some ''T'', ports = [], signals = [],
                          instances = [(''a'', 2), (''b'', 3)], interfaces = [],
                          namespace = [(''a'', NInstance 2), (''b'', NInstance 3)], pymodule = None\<rparr>,
                   1 \<mapsto> \<lparr>mod_name = Some ''C'', ports = [], signals = [], instances = [],
                          interfaces = [], namespace = [], pymodule = None\<rparr>],
     h_instances := [2 \<mapsto> \<lparr>inst_name = ''a'', inst_of = OfModule 1, conns = [], inst_elaborated = False\<rparr>,
                     3 \<mapsto> \<lparr>inst_name = ''b'', inst_of = OfModule 1, conns = [], inst_elaborated = False\<rparr>],
     next_addr := 4\<rparr>"

section \<open>The hierarchy of a design\<close>

text \<open>
  \<open>child h m c\<close>: an Instance of module \<open>m\<close> resolves to module \<open>c\<close>. \<open>reach h m c\<close>: \<open>c\<close> is
  \<open>m\<close> or is reached from it through Instance targets. \<open>shape\<close> is the part of the store
  that decides the hierarchy and the bundles of each module: the instance map and the
  interface map of every Module, the target of every Instance, and the GeneratorCalls.
\<close>

definition child :: "heap \<Rightarrow> addr \<Rightarrow> addr \<Rightarrow> bool" where
  "child h m c \<longleftrightarrow>
     (\<exists>M n i inst. h_modules h m = Some M \<and> (n, i) \<in> set (instances M)
        \<and> h_instances h i = Some inst \<and> resolved_of h inst = Inr (RModule c))"

definition reach :: "heap \<Rightarrow> addr \<Rightarrow> addr \<Rightarrow> bool" where
  "reach h = (child h)\<^sup>*\<^sup>*"

definition no_interfaces :: "heap \<Rightarrow> addr \<Rightarrow> bool" where
  "no_interfaces h c \<longleftrightarrow> (\<exists>M. h_modules h c = Some M \<and> interfaces M = [])"

definition shape ::
  "heap \<Rightarrow> (addr \<Rightarrow> ((string \<times> addr) list \<times> (string \<times> addr) list) option)
            \<times> (addr \<Rightarrow> target option) \<times> (addr \<rightharpoonup> GeneratorCall)" where
  "shape h = (\<lambda>a. map_option (\<lambda>M. (instances M, interfaces M)) (h_modules h a),
              \<lambda>a. map_option inst_of (h_instances h a),
              h_calls h)"

text \<open>
  A module \<open>T\<close> with an internal bundle \<open>b\<close> of type \<open>Diff\<close>, connected to the bundle port
  \<open>io\<close> of its one instance \<open>c\<close> of module \<open>C\<close>.
\<close>

definition bundle_heap :: heap where
  "bundle_heap = empty_heap\<lparr>
     h_modules := [0 \<mapsto> \<lparr>mod_name = Some ''T'', ports = [], signals = [],
                          instances = [(''c'', 2)], interfaces = [(''b'', 4)],
                          namespace = [(''c'', NInstance 2), (''b'', NInterface 4)], pymodule = None\<rparr>,
                   1 \<mapsto> \<lparr>mod_name = Some ''C'', ports = [], signals = [], instances = [],
                          interfaces = [(''io'', 3)], namespace = [(''io'', NInterface 3)],
                          pymodule = None\<rparr>],
     h_instances := [2 \<mapsto> \<lparr>inst_name = ''c'', inst_of = OfModule 1, conns = [(''io'', CInterface 4)],
                             inst_elaborated = False\<rparr>],
     h_interfaces := [3 \<mapsto> diff_io,
                      4 \<mapsto> \<lparr>ii_name = ''b'', ii_of = Diff, port = False, role = None, portrefs = [],
                              ii_elaborated = False\<rparr>],
     next_addr := 5\<rparr>"

section \<open>Designs with chains of port-to-port connections\<close>

text \<open>
  A module \<open>P\<close> with instances \<open>x\<close>, \<open>y\<close> and \<open>z\<close>, declared in that order, of a module \<open>W\<close>
  with ports \<open>p\<close>, \<open>q\<close> and \<open>r\<close>: \<open>x.p\<close> is connected to the PortRef \<open>y.q\<close> and \<open>y.q\<close> to the
  PortRef \<open>z.r\<close>.
\<close>

definition chain_heap :: heap where
  "chain_heap = empty_heap\<lparr>
     h_modules := [0 \<mapsto> \<lparr>mod_name = Some ''P'', ports = [], signals = [],
                          instances = [(''x'', 1), (''y'', 2), (''z'', 3)], interfaces = [],
                          namespace = [(''x'', NInstance 1), (''y'', NInstance 2), (''z'', NInstance 3)],
                          pymodule = None\<rparr>,
                   4 \<mapsto> \<lparr>mod_name = Some ''W'', ports = [(''p'', 5), (''q'', 6), (''r'', 7)], signals = [],
                          instances = [], interfaces = [],
                          namespace = [(''p'', NSignal 5), (''q'', NSignal 6), (''r'', NSignal 7)],
                          pymodule = None\<rparr>],
     h_instances := [1 \<mapsto> \<lparr>inst_name = ''x'', inst_of = OfModule 4,
                             conns = [(''p'', CPortRef (PortRef 8 (PInst 2) ''q''))], inst_elaborated = False\<rparr>,
                     2 \<mapsto> \<lparr>inst_name = ''y'', inst_of = OfModule 4,
                             conns = [(''q'', CPortRef (PortRef 9 (PInst 3) ''r''))], inst_elaborated = False\<rparr>,
                     3 \<mapsto> \<lparr>inst_name = ''z'', inst_of = OfModule 4, conns = [], inst_elaborated = False\<rparr>],
     h_signals := [5 \<mapsto> wire ''p'', 6 \<mapsto> wire ''q'', 7 \<mapsto> wire ''r''],
     next_addr := 10\<rparr>"

text \<open>
  The testbench of \<open>examples/mos_sim.py\<close>: \<open>vdc = V(Vdc(1))(n=VSS)\<close> and
  \<open>mos = Nmos()(d=vdc.p, g=vdc.p, s=VSS, b=VSS)\<close>. Drain and gate of the transistor are
  both connected to the PortRef \<open>vdc.p\<close>.
\<close>

definition mos_heap :: heap where
  "mos_heap = empty_heap\<lparr>
     h_modules := [0 \<mapsto> \<lparr>mod_name = Some ''Tb'', ports = [(''VSS'', 1)], signals = [],
                          instances = [(''vdc'', 2), (''mos'', 3)], interfaces = [],
                          namespace = [(''VSS'', NSignal 1), (''vdc'', NInstance 2), (''mos'', NInstance 3)],
                          pymodule = None\<rparr>],
     h_instances := [2 \<mapsto> \<lparr>inst_name = ''vdc'', inst_of = OfPrimitive [(''p'', wire ''p''), (''n'', wire ''n'')],
                             conns = [(''n'', CSignal 1)], inst_elaborated = False\<rparr>,
                     3 \<mapsto> \<lparr>inst_name = ''mos'',
                             inst_of = OfPrimitive [(''d'', wire ''d''), (''g'', wire ''g''),
                                                    (''s'', wire ''s''), (''b'', wire ''b'')],
                             conns = [(''d'', CPortRef (PortRef 4 (PInst 2) ''p'')),
                                      (''g'', CPortRef (PortRef 4 (PInst 2) ''p'')),
                                      (''s'', CSignal 1), (''b'', CSignal 1)],
                             inst_elaborated = False\<rparr>],
     h_signals := [1 \<mapsto> wire ''VSS''],
     next_addr := 5\<rparr>"





text \<open>
  \<open>is_shorting e\<close>: the error is the \<open>RuntimeError\<close> of lines 279 and 484. \<open>holds_ref h p\<close>:
  the connection of port \<open>p\<close> is a PortRef. \<open>wf_conns h\<close>: no port name is a key twice in
  the connections of an Instance, as in every Python dictionary.
\<close>

definition is_shorting :: "error \<Rightarrow> bool" where
  "is_shorting e = (case e of Shorting ns \<Rightarrow> True | other \<Rightarrow> False)"



section \<open>Properties of \<open>flatname\<close>\<close>

lemma length_wrap: "length (wrap k name) = length name + 2 * k"
  by (induction k arbitrary: name) auto

lemma flatname_loop_char:
  "\<exists>k. (\<forall>j<k. wrap j name \<in> avoid \<and> int (length (wrap j name)) \<le> maxlen) \<and>
        flatname_loop segments avoid maxlen name =
          (if int (length (wrap k name)) > maxlen then Inl (NameError segments (wrap k name))
           else Inr (wrap k name)) \<and>
        (int (length (wrap k name)) \<le> maxlen \<longrightarrow> wrap k name \<notin> avoid)"
proof (induction segments avoid maxlen name rule: flatname_loop.induct)
  case (1 segments avoid maxlen name)
  show ?case
  proof (cases "int (length name) > maxlen")
    case True
    then have "flatname_loop segments avoid maxlen name = Inl (NameError segments name)"
      by (simp add: flatname_loop.simps)
    with True show ?thesis by (intro exI[of _ 0]) simp
  next
    case small: False
    show ?thesis
    proof (cases "name \<in> avoid")
      case False
      with small have "flatname_loop segments avoid maxlen name = Inr name"
        by (simp add: flatname_loop.simps)
      with small False show ?thesis by (intro exI[of _ 0]) simp
    next
      case True
      let ?n = "''_'' @ name @ ''_''"
      from 1[OF small] True obtain k where
        k: "\<forall>j<k. wrap j ?n \<in> avoid \<and> int (length (wrap j ?n)) \<le> maxlen"
           "flatname_loop segments avoid maxlen ?n =
             (if int (length (wrap k ?n)) > maxlen then Inl (NameError segments (wrap k ?n))
              else Inr (wrap k ?n))"
           "int (length (wrap k ?n)) \<le> maxlen \<longrightarrow> wrap k ?n \<notin> avoid"
        by auto
      have step: "flatname_loop segments avoid maxlen name = flatname_loop segments avoid maxlen ?n"
        using small True by (subst flatname_loop.simps) simp
      have pre: "\<forall>j<Suc k. wrap j name \<in> avoid \<and> int (length (wrap j name)) \<le> maxlen"
      proof (intro allI impI)
        fix j assume "j < Suc k"
        then show "wrap j name \<in> avoid \<and> int (length (wrap j name)) \<le> maxlen"
          using k(1) small True by (cases j) auto
      qed
      show ?thesis
        using pre step k(2,3) by (intro exI[of _ "Suc k"]) simp
    qed
  qed
qed

lemma flatname_loop_Inr:
  "flatname_loop segments avoid maxlen name = Inr r \<Longrightarrow> r \<notin> avoid \<and> int (length r) \<le> maxlen"
  using flatname_loop_char[of name avoid maxlen segments] by (auto split: if_splits)

lemma flatname_Inr:
  "flatname segments avoid maxlen = Inr r \<Longrightarrow> r \<notin> avoid \<and> int (length r) \<le> maxlen"
  unfolding flatname_def by (rule flatname_loop_Inr)

text \<open>
  Claim C8. \<open>flatname\<close> starts from the candidate \<open>"_" + "_".join(segments) + "_"\<close>. There is
  a number \<open>k\<close> of collisions: each of the first \<open>k\<close> candidates is a key of \<open>avoid\<close> and fits
  in \<open>maxlen\<close>, each was wrapped in one more leading and trailing underscore, and the
  candidate after \<open>k\<close> wrappings decides the call: it raises when that candidate is longer
  than \<open>maxlen\<close>, and returns it otherwise, in which case it is not a key of \<open>avoid\<close>. So a
  returned name is never in \<open>avoid\<close> and never longer than \<open>maxlen\<close>, and the first
  candidate is returned as it is when it fits and is not in \<open>avoid\<close>.
\<close>

theorem flatname_spec:
  "(\<exists>k. (\<forall>j<k. wrap j (''_'' @ join ''_'' segments @ ''_'') \<in> avoid
              \<and> int (length (wrap j (''_'' @ join ''_'' segments @ ''_''))) \<le> maxlen) \<and>
        flatname segments avoid maxlen =
          (if int (length (wrap k (''_'' @ join ''_'' segments @ ''_''))) > maxlen
           then Inl (NameError segments (wrap k (''_'' @ join ''_'' segments @ ''_'')))
           else Inr (wrap k (''_'' @ join ''_'' segments @ ''_''))) \<and>
        (int (length (wrap k (''_'' @ join ''_'' segments @ ''_''))) \<le> maxlen
           \<longrightarrow> wrap k (''_'' @ join ''_'' segments @ ''_'') \<notin> avoid))
   \<and> (\<forall>name. flatname segments avoid maxlen = Inr name
          \<longrightarrow> name \<notin> avoid \<and> int (length name) \<le> maxlen)
   \<and> (''_'' @ join ''_'' segments @ ''_'' \<notin> avoid
        \<and> int (length (''_'' @ join ''_'' segments @ ''_'')) \<le> maxlen
        \<longrightarrow> flatname segments avoid maxlen = Inr (''_'' @ join ''_'' segments @ ''_''))"
proof (intro conjI)
  show "\<exists>k. (\<forall>j<k. wrap j (''_'' @ join ''_'' segments @ ''_'') \<in> avoid
              \<and> int (length (wrap j (''_'' @ join ''_'' segments @ ''_''))) \<le> maxlen) \<and>
        flatname segments avoid maxlen =
          (if int (length (wrap k (''_'' @ join ''_'' segments @ ''_''))) > maxlen
           then Inl (NameError segments (wrap k (''_'' @ join ''_'' segments @ ''_'')))
           else Inr (wrap k (''_'' @ join ''_'' segments @ ''_''))) \<and>
        (int (length (wrap k (''_'' @ join ''_'' segments @ ''_''))) \<le> maxlen
           \<longrightarrow> wrap k (''_'' @ join ''_'' segments @ ''_'') \<notin> avoid)"
    unfolding flatname_def by (rule flatname_loop_char)
  show "\<forall>name. flatname segments avoid maxlen = Inr name
          \<longrightarrow> name \<notin> avoid \<and> int (length name) \<le> maxlen"
    using flatname_Inr by blast
  show "''_'' @ join ''_'' segments @ ''_'' \<notin> avoid
        \<and> int (length (''_'' @ join ''_'' segments @ ''_'')) \<le> maxlen
        \<longrightarrow> flatname segments avoid maxlen = Inr (''_'' @ join ''_'' segments @ ''_'')"
    unfolding flatname_def by (subst flatname_loop.simps) simp
qed

theorem flatname_spec_witness:
  "flatname [''x_p'', ''y_q''] {''_x_p_y_q_''} default_maxlen = Inr ''__x_p_y_q__''
   \<and> ''__x_p_y_q__'' \<notin> {''_x_p_y_q_''}
   \<and> int (length ''__x_p_y_q__'') \<le> default_maxlen
   \<and> flatname [''x_p'', ''y_q''] {} default_maxlen = Inr ''_x_p_y_q_''"
proof -
  have ev: "flatname [''x_p'', ''y_q''] {''_x_p_y_q_''} default_maxlen = Inr ''__x_p_y_q__''"
    by (simp add: flatname_def flatname_loop.simps default_maxlen_def)
  have fresh: "''_'' @ join ''_'' [''x_p'', ''y_q''] @ ''_'' \<notin> {}
        \<and> int (length (''_'' @ join ''_'' [''x_p'', ''y_q''] @ ''_'')) \<le> default_maxlen"
    by (simp add: default_maxlen_def)
  from flatname_spec[of "[''x_p'', ''y_q'']" "{''_x_p_y_q_''}" default_maxlen] ev
  have a: "''__x_p_y_q__'' \<notin> {''_x_p_y_q_''} \<and> int (length ''__x_p_y_q__'') \<le> default_maxlen"
    by blast
  from flatname_spec[of "[''x_p'', ''y_q'']" "{}" default_maxlen] fresh
  have b: "flatname [''x_p'', ''y_q''] {} default_maxlen = Inr ''_x_p_y_q_''"
    by simp
  from ev a b show ?thesis by blast
qed


section \<open>The entry points: \<open>elaborate\<close> and \<open>elab_all\<close>\<close>

text \<open>
  Claim C10. \<open>elaborate\<close> with \<open>passes=[]\<close> is \<open>elaborate\<close> with \<open>passes\<close> omitted: the four
  passes of the enumeration run in definition order, each on the result of the one
  before. Running no pass would return \<open>top\<close> and the store as they are.
\<close>

theorem elaborate_empty_passes:
  "elaborate F U n t ctx (Some []) h = elaborate F U n t ctx None h
   \<and> elaborate F U n t ctx (Some []) h =
       ebind (run_pass F U n RUN_GENERATORS (case ctx of None \<Rightarrow> Context | Some c \<Rightarrow> c) t h) (\<lambda>r1.
       ebind (run_pass F U n IMPLICIT_INTERFACES (case ctx of None \<Rightarrow> Context | Some c \<Rightarrow> c) (fst r1) (snd r1)) (\<lambda>r2.
       ebind (run_pass F U n FLATTEN_INTERFACES (case ctx of None \<Rightarrow> Context | Some c \<Rightarrow> c) (fst r2) (snd r2)) (\<lambda>r3.
       ebind (run_pass F U n IMPLICIT_SIGNALS (case ctx of None \<Rightarrow> Context | Some c \<Rightarrow> c) (fst r3) (snd r3)) (\<lambda>r4.
         Inr (fst r4, snd r4)))))
   \<and> run_passes F U n (case ctx of None \<Rightarrow> Context | Some c \<Rightarrow> c) [] t h = Inr (t, h)"
  by (simp add: elaborate_def all_passes_def Let_def)

lemma walk_namespace_test: "is_container x \<or> elabable x \<longleftrightarrow> x \<noteq> PTop TOther"
  by (cases x) (auto simp: is_container_def elabable_def split: top.splits)

lemma helper_char:
  "list_elabables_helper obj accum = (if offending obj then Inl TypeError else Inr (accum @ candidates obj))"
  "helper_list xs accum = (if offending_list xs then Inl TypeError else Inr (accum @ candidates_list xs))"
  "helper_namespace kvs accum =
     (if offending_namespace kvs then Inl TypeError else Inr (accum @ candidates_namespace kvs))"
proof (induction obj accum and xs accum and kvs accum
       rule: list_elabables_helper_helper_list_helper_namespace.induct)
  case (7 kv kvs accum)
  then show ?case by (cases "snd kv = PTop TOther") (auto simp: walk_namespace_test)
qed auto

text \<open>
  Claim C9, as stated, fails: a leaf that is neither a candidate nor a container raises no
  error when it is an attribute of a namespace. Here the namespace has the single
  attribute \<open>name\<close>, and \<open>elab_all\<close> returns the empty list.
\<close>

theorem elab_all_skips_leaf:
  "elab_all no_generators example_unique_name 10 (PNamespace [(''name'', PTop TOther)]) None None empty_heap
     = Inr ([], empty_heap)"
  by (simp add: elab_all_def is_container_def elabable_def)

text \<open>
  Claim C9, amended. \<open>elab_all\<close> flattens its input, a candidate, a list or a namespace,
  nested to any depth, and elaborates the candidates found, in order, returning the
  results as a list. It raises a type error when a leaf that is neither a candidate nor a
  container is the input itself or an element of a list; such a leaf is passed over
  when it is an attribute of a namespace.
\<close>

theorem elab_all_walk:
  "elab_all F U n obj ctx passes h =
     (if offending obj then Inl TypeError
      else elaborate_each F U n ctx passes (candidates obj) h)"
  by (simp add: elab_all_def helper_char(1))


section \<open>Bundle flattening: visibility and direction\<close>

lemma set_fields_signals [simp]:
  "h_signals (set_signal a x h) = (h_signals h)(a \<mapsto> x)"
  "h_signals (set_instance a i h) = h_signals h"
  "h_signals (set_interface a ii h) = h_signals h"
  "h_signals (set_call a c h) = h_signals h"
  "h_signals (set_module a M h) = h_signals h"
  by (simp_all add: set_signal_def set_instance_def set_interface_def set_call_def set_module_def)

definition flat_ok :: "InterfaceInstance \<Rightarrow> Signal \<Rightarrow> bool" where
  "flat_ok intf x \<longleftrightarrow> vis x = flat_vis intf \<and> direction x = flat_dir intf x"

lemma module_add_signal_signals:
  "module_add_signal m a h = Inr h' \<Longrightarrow> h_signals h' = h_signals h"
  by (auto simp: module_add_signal_def Let_def)

lemma add_flat_signal_sig:
  assumes "add_flat_signal m intf a h = Inr h'"
  shows "\<exists>x nm. h_signals h a = Some x
           \<and> h_signals h' = (h_signals h)(a \<mapsto> x\<lparr>sig_name := nm, vis := flat_vis intf, direction := flat_dir intf x\<rparr>)"
proof -
  from assms obtain x M nm where x: "h_signals h a = Some x"
    and add: "module_add_signal m a
         (set_signal a (x\<lparr>sig_name := nm, vis := flat_vis intf, direction := flat_dir intf x\<rparr>) h) = Inr h'"
    unfolding add_flat_signal_def by auto
  from module_add_signal_signals[OF add] x show ?thesis by auto
qed

lemma flat_ok_update:
  "flat_ok intf (x\<lparr>sig_name := nm, vis := flat_vis intf, direction := flat_dir intf x\<rparr>)"
  by (auto simp: flat_ok_def flat_dir_def)

lemma add_flat_signal_step:
  assumes "add_flat_signal m intf a h = Inr h'"
  shows "(\<exists>x. h_signals h' a = Some x \<and> flat_ok intf x)
       \<and> (\<forall>b x. h_signals h b = Some x \<and> flat_ok intf x \<longrightarrow> (\<exists>x'. h_signals h' b = Some x' \<and> flat_ok intf x'))"
proof -
  from add_flat_signal_sig[OF assms] obtain x nm where x: "h_signals h a = Some x"
    and h': "h_signals h' = (h_signals h)(a \<mapsto> x\<lparr>sig_name := nm, vis := flat_vis intf, direction := flat_dir intf x\<rparr>)"
    by blast
  show ?thesis
  proof (intro conjI allI impI)
    show "\<exists>x. h_signals h' a = Some x \<and> flat_ok intf x"
      using h' flat_ok_update by simp
  next
    fix b y assume "h_signals h b = Some y \<and> flat_ok intf y"
    then show "\<exists>x'. h_signals h' b = Some x' \<and> flat_ok intf x'"
      using h' flat_ok_update by (cases "b = a") simp_all
  qed
qed


lemma add_flat_signals_loop:
  "for_each (add_flat_signal m intf) as h = Inr h' \<Longrightarrow>
     (\<forall>a\<in>set as. \<exists>x. h_signals h' a = Some x \<and> flat_ok intf x)
   \<and> (\<forall>b x. h_signals h b = Some x \<and> flat_ok intf x \<longrightarrow> (\<exists>x'. h_signals h' b = Some x' \<and> flat_ok intf x'))"
proof (induction as arbitrary: h)
  case Nil
  then show ?case by simp
next
  case (Cons a as)
  from Cons.prems obtain h1 where
    s: "add_flat_signal m intf a h = Inr h1" and r: "for_each (add_flat_signal m intf) as h1 = Inr h'"
    by auto
  note st = add_flat_signal_step[OF s] and ih = Cons.IH[OF r]
  show ?case
  proof (intro conjI ballI allI impI)
    fix b assume "b \<in> set (a # as)"
    then show "\<exists>x. h_signals h' b = Some x \<and> flat_ok intf x"
      using st ih by (cases "b = a") auto
  next
    fix b x assume "h_signals h b = Some x \<and> flat_ok intf x"
    with st obtain x1 where "h_signals h1 b = Some x1 \<and> flat_ok intf x1" by blast
    with ih show "\<exists>x'. h_signals h' b = Some x' \<and> flat_ok intf x'" by blast
  qed
qed


lemma replace_port_signals: "replace_port tbl ia flat a pn h = Inr h' \<Longrightarrow> h_signals h' = h_signals h"
  unfolding replace_port_def
  by (auto split: if_splits elim!: for_each_inv[where P="\<lambda>t. h_signals t = h_signals h"])

lemma replace_bundle_conns_signals:
  "replace_bundle_conns tbl ia flat insts h = Inr h' \<Longrightarrow> h_signals h' = h_signals h"
  unfolding replace_bundle_conns_def
  by (erule for_each_inv[where P="\<lambda>t. h_signals t = h_signals h"], simp)
     (auto elim!: for_each_inv[where P="\<lambda>t. h_signals t = h_signals h"] dest: replace_port_signals)

lemma reconnect_portref_signals:
  "reconnect_portref flat insts r h = Inr h' \<Longrightarrow> h_signals h' = h_signals h"
  unfolding reconnect_portref_def
  by (auto split: option.splits elim!: for_each_inv[where P="\<lambda>t. h_signals t = h_signals h"])

lemma for_each_reconnect_signals:
  "for_each (reconnect_portref flat insts) rs h = Inr h' \<Longrightarrow> h_signals h' = h_signals h"
  by (erule for_each_inv[where P="\<lambda>t. h_signals t = h_signals h"]) (auto dest: reconnect_portref_signals)

lemma flat_ok_iff:
  "flat_ok intf x \<longleftrightarrow>
     (vis x = PORT \<longleftrightarrow> port intf) \<and> (vis x = INTERNAL \<longleftrightarrow> \<not> port intf) \<and>
     direction x =
       (if port intf then
          (if role intf = None then NONE
           else if role intf = src x then OUTPUT
           else if role intf = dest x then INPUT
           else NONE)
        else NONE)"
  by (cases "vis x") (auto simp: flat_ok_def flat_vis_def flat_dir_def)


lemma set_fields_interfaces [simp]:
  "h_interfaces (set_signal a x h) = h_interfaces h"
  "h_interfaces (set_instance a i h) = h_interfaces h"
  "h_interfaces (set_interface a ii h) = (h_interfaces h)(a \<mapsto> ii)"
  "h_interfaces (set_call a c h) = h_interfaces h"
  "h_interfaces (set_module a M h) = h_interfaces h"
  by (simp_all add: set_signal_def set_instance_def set_interface_def set_call_def set_module_def)

lemma flatten_round_flat_ok:
  assumes "flatten_round tbl m repl h = Inr r" and "h_modules h m = Some M"
    and "h_interfaces h (snd (last (interfaces M))) = Some intf"
  shows "\<exists>flat. map_of (fst r) (fst (last (interfaces M))) = Some flat
           \<and> (\<forall>a \<in> snd ` set (fl_signals flat). \<exists>x. h_signals (snd r) a = Some x \<and> flat_ok intf x)"
  using assms unfolding flatten_round_def
  apply (clarsimp simp: Let_def update_Some_unfold split: if_splits)
  apply (drule add_flat_signals_loop)
  apply (drule replace_bundle_conns_signals)
  apply (drule for_each_reconnect_signals)
  apply (clarsimp)
  apply (drule (1) bspec)
  apply simp
  done

lemmas eval_defs = flatten_round_def dict_pop_def dict_getitem_def new_signal_def add_flat_signal_def
  flatname_def flatname_loop.simps module_add_signal_def replace_bundle_conns_def reconnect_portref_def
  default_maxlen_def flat_vis_def flat_dir_def Let_def set_module_def set_signal_def set_instance_def
  get_module_def get_signal_def get_interface_def get_instance_def

text \<open>
  Claim C3. One round of the flattening loop takes the InterfaceInstance \<open>intf\<close> that is last
  in the interface map of the module and records its flattened form under its key. When
  the round is over, each signal of that form is a port if and only if \<open>intf\<close> is a port, and
  internal otherwise; its direction, when \<open>intf\<close> is a port, is \<open>NONE\<close> if \<open>intf\<close> has no role,
  \<open>OUTPUT\<close> if the role is the signal's \<open>src\<close>, \<open>INPUT\<close> if it is the signal's \<open>dest\<close>, and \<open>NONE\<close>
  otherwise; when \<open>intf\<close> is not a port the direction is \<open>NONE\<close>.
\<close>

theorem flatten_round_visibility_direction:
  assumes "flatten_round tbl m repl h = Inr r" and "h_modules h m = Some M"
    and "h_interfaces h (snd (last (interfaces M))) = Some intf"
  shows "\<exists>flat. map_of (fst r) (fst (last (interfaces M))) = Some flat
           \<and> (\<forall>a \<in> snd ` set (fl_signals flat). \<exists>x. h_signals (snd r) a = Some x
                 \<and> (vis x = PORT \<longleftrightarrow> port intf) \<and> (vis x = INTERNAL \<longleftrightarrow> \<not> port intf)
                 \<and> direction x =
                     (if port intf then
                        (if role intf = None then NONE
                         else if role intf = src x then OUTPUT
                         else if role intf = dest x then INPUT
                         else NONE)
                      else NONE))"
  using flatten_round_flat_ok[OF assms] by (simp add: flat_ok_iff)

theorem flatten_round_visibility_direction_witness:
  "\<exists>r. flatten_round Map.empty 0 [] diff_heap = Inr r
      \<and> map (\<lambda>a. map_option (\<lambda>x. (sig_name x, vis x, direction x)) (h_signals (snd r) a)) [2, 3]
          = [Some (''_io_p_'', PORT, OUTPUT), Some (''_io_n_'', PORT, OUTPUT)]
      \<and> (\<exists>flat. map_of (fst r) (fst (last (interfaces diff_module))) = Some flat
           \<and> (\<forall>a \<in> snd ` set (fl_signals flat). \<exists>x. h_signals (snd r) a = Some x
                 \<and> (vis x = PORT \<longleftrightarrow> port diff_io) \<and> (vis x = INTERNAL \<longleftrightarrow> \<not> port diff_io)
                 \<and> direction x =
                     (if port diff_io then
                        (if role diff_io = None then NONE
                         else if role diff_io = src x then OUTPUT
                         else if role diff_io = dest x then INPUT
                         else NONE)
                      else NONE)))"
proof -
  have "\<exists>r. flatten_round Map.empty 0 [] diff_heap = Inr r
      \<and> map (\<lambda>a. map_option (\<lambda>x. (sig_name x, vis x, direction x)) (h_signals (snd r) a)) [2, 3]
          = [Some (''_io_p_'', PORT, OUTPUT), Some (''_io_n_'', PORT, OUTPUT)]"
    by (simp add: eval_defs diff_heap_def empty_heap_def diff_module_def diff_io_def Diff_def
        diff_signal_def)
  then obtain r where r: "flatten_round Map.empty 0 [] diff_heap = Inr r"
    and v: "map (\<lambda>a. map_option (\<lambda>x. (sig_name x, vis x, direction x)) (h_signals (snd r) a)) [2, 3]
          = [Some (''_io_p_'', PORT, OUTPUT), Some (''_io_n_'', PORT, OUTPUT)]"
    by (elim exE conjE)
  have M: "h_modules diff_heap 0 = Some diff_module"
    by (simp add: diff_heap_def)
  have i: "h_interfaces diff_heap (snd (last (interfaces diff_module))) = Some diff_io"
    by (simp add: diff_heap_def diff_module_def)
  note t = flatten_round_visibility_direction[OF r M i]
  show ?thesis
    by (rule exI[of _ r], intro conjI) (rule r, rule v, rule t)
qed


section \<open>Shorting\<close>

lemma readable_member_conn:
  "readable h p \<Longrightarrow> \<exists>c. member_conn h p = Inr c"
  by (auto simp: readable_def member_conn_def split: owner.splits)

lemma net_names_readable:
  "\<forall>p\<in>set net. readable h p \<Longrightarrow> \<exists>names. net_names h net = Inr names \<and> list_all2 (named h) net names"
proof (induction net)
  case Nil
  then show ?case by (simp add: net_names_def)
next
  case (Cons p net)
  then obtain names where n: "net_names h net = Inr names" "list_all2 (named h) net names"
    by auto
  from Cons.prems obtain a i where p: "fst p = PInst a" "h_instances h a = Some i"
    by (auto simp: readable_def split: owner.splits)
  have "net_names h (p # net) = Inr ((inst_name i, snd p) # names)"
    using n(1) p by (cases p) (simp add: net_names_def owner_name_def)
  moreover have "named h p (inst_name i, snd p)"
    using p by (simp add: named_def)
  ultimately show ?case using n(2) by auto
qed

lemma find_signal_shorting:
  assumes "\<forall>p\<in>set ps. readable h p"
    and "a \<in> set_option sig \<union> {c. \<exists>p\<in>set ps. member_conn h p = Inr (Some (CSignal c))}"
    and "b \<in> set_option sig \<union> {c. \<exists>p\<in>set ps. member_conn h p = Inr (Some (CSignal c))}"
    and "a \<noteq> b"
  shows "find_signal h net ps sig = Inl (shorting_error h net)"
  using assms
proof (induction ps arbitrary: sig)
  case Nil
  then show ?case by (cases sig) auto
next
  case (Cons p ps)
  from Cons.prems(1) obtain c where c: "member_conn h p = Inr c"
    using readable_member_conn by fastforce
  show ?case
  proof (cases "\<exists>s. c = Some (CSignal s)")
    case True
    then obtain s where s: "c = Some (CSignal s)" by blast
    show ?thesis
    proof (cases "sig \<noteq> None \<and> sig \<noteq> Some s")
      case True
      then show ?thesis using c s by simp
    next
      case False
      then have step: "find_signal h net (p # ps) sig = find_signal h net ps (Some s)"
        using c s by auto
      have "find_signal h net ps (Some s) = Inl (shorting_error h net)"
        using Cons.prems False c s
        by (intro Cons.IH) (auto split: option.splits)
      with step show ?thesis by simp
    qed
  next
    case False
    then have step: "find_signal h net (p # ps) sig = find_signal h net ps sig"
      using c by (cases c) (auto split: conn.splits)
    have "find_signal h net ps sig = Inl (shorting_error h net)"
      using Cons.prems False c by (intro Cons.IH) auto
    with step show ?thesis by simp
  qed
qed

lemma find_interface_shorting:
  assumes "\<forall>p\<in>set ps. readable h p"
    and "a \<in> set_option sig \<union> {c. \<exists>p\<in>set ps. member_conn h p = Inr (Some (CInterface c))}"
    and "b \<in> set_option sig \<union> {c. \<exists>p\<in>set ps. member_conn h p = Inr (Some (CInterface c))}"
    and "a \<noteq> b"
  shows "find_interface h net ps sig = Inl (shorting_error h net)"
  using assms
proof (induction ps arbitrary: sig)
  case Nil
  then show ?case by (cases sig) auto
next
  case (Cons p ps)
  from Cons.prems(1) obtain c where c: "member_conn h p = Inr c"
    using readable_member_conn by fastforce
  show ?case
  proof (cases "\<exists>s. c = Some (CInterface s)")
    case True
    then obtain s where s: "c = Some (CInterface s)" by blast
    show ?thesis
    proof (cases "sig \<noteq> None \<and> sig \<noteq> Some s")
      case True
      then show ?thesis using c s by simp
    next
      case False
      then have step: "find_interface h net (p # ps) sig = find_interface h net ps (Some s)"
        using c s by auto
      have "find_interface h net ps (Some s) = Inl (shorting_error h net)"
        using Cons.prems False c s
        by (intro Cons.IH) (auto split: option.splits)
      with step show ?thesis by simp
    qed
  next
    case False
    then have step: "find_interface h net (p # ps) sig = find_interface h net ps sig"
      using c by (cases c) (auto split: conn.splits)
    have "find_interface h net ps sig = Inl (shorting_error h net)"
      using Cons.prems False c by (intro Cons.IH) auto
    with step show ?thesis by simp
  qed
qed


lemma for_each_append:
  "for_each body (xs @ ys) s = ebind (for_each body xs s) (for_each body ys)"
  by (induction xs arbitrary: s) (auto simp: ebind_def split: sum.splits)

lemma shorting_error_names: "net_names h net = Inr names \<Longrightarrow> shorting_error h net = Shorting names"
  by (simp add: shorting_error_def)

text \<open>
  The scan of a net. Take a net whose members are ports of Instances. If two members are connected
  to declared Signals that are not the same object, the scan of \<open>ImplicitSignals\<close> raises
  the shorting error, whose message lists the (instance name, port name) pair of every
  member of the net; the round of the loop over the nets fails with it before a Signal
  is created, and so does the loop when it reaches the net. The same holds for
  \<open>ImplicitInterfaces\<close> and two InterfaceInstances that are not the same object.
\<close>

theorem shorting_detected:
  assumes "\<forall>p\<in>set net. readable h p"
  shows "((\<exists>p\<in>set net. \<exists>q\<in>set net. \<exists>a b. member_conn h p = Inr (Some (CSignal a))
             \<and> member_conn h q = Inr (Some (CSignal b)) \<and> a \<noteq> b)
          \<longrightarrow> (\<exists>names. list_all2 (named h) net names
                \<and> find_signal h net net None = Inl (Shorting names)
                \<and> resolve_net m net h = Inl (Shorting names)
                \<and> (\<forall>pre rest h0. for_each (resolve_net m) pre h0 = Inr h
                      \<longrightarrow> for_each (resolve_net m) (pre @ net # rest) h0 = Inl (Shorting names))))
       \<and> ((\<exists>p\<in>set net. \<exists>q\<in>set net. \<exists>a b. member_conn h p = Inr (Some (CInterface a))
             \<and> member_conn h q = Inr (Some (CInterface b)) \<and> a \<noteq> b)
          \<longrightarrow> (\<exists>names. list_all2 (named h) net names
                \<and> find_interface h net net None = Inl (Shorting names)
                \<and> resolve_bundle_net m net h = Inl (Shorting names)
                \<and> (\<forall>pre rest h0. for_each (resolve_bundle_net m) pre h0 = Inr h
                      \<longrightarrow> for_each (resolve_bundle_net m) (pre @ net # rest) h0 = Inl (Shorting names))))"
proof -
  from net_names_readable[OF assms] obtain names where
    n: "net_names h net = Inr names" and l: "list_all2 (named h) net names"
    by blast
  note e = shorting_error_names[OF n]
  show ?thesis
  proof (intro conjI impI)
    assume "\<exists>p\<in>set net. \<exists>q\<in>set net. \<exists>a b. member_conn h p = Inr (Some (CSignal a))
             \<and> member_conn h q = Inr (Some (CSignal b)) \<and> a \<noteq> b"
    then obtain p q a b where "p \<in> set net" "q \<in> set net" "member_conn h p = Inr (Some (CSignal a))"
      "member_conn h q = Inr (Some (CSignal b))" "a \<noteq> b"
      by blast
    then have f: "find_signal h net net None = Inl (Shorting names)"
      using find_signal_shorting[OF assms, of a None b net] e by auto
    then have r: "resolve_net m net h = Inl (Shorting names)"
      by (simp add: resolve_net_def)
    from l f r show "\<exists>names. list_all2 (named h) net names
                \<and> find_signal h net net None = Inl (Shorting names)
                \<and> resolve_net m net h = Inl (Shorting names)
                \<and> (\<forall>pre rest h0. for_each (resolve_net m) pre h0 = Inr h
                      \<longrightarrow> for_each (resolve_net m) (pre @ net # rest) h0 = Inl (Shorting names))"
      by (intro exI[of _ names]) (simp add: for_each_append)
  next
    assume "\<exists>p\<in>set net. \<exists>q\<in>set net. \<exists>a b. member_conn h p = Inr (Some (CInterface a))
             \<and> member_conn h q = Inr (Some (CInterface b)) \<and> a \<noteq> b"
    then obtain p q a b where "p \<in> set net" "q \<in> set net" "member_conn h p = Inr (Some (CInterface a))"
      "member_conn h q = Inr (Some (CInterface b))" "a \<noteq> b"
      by blast
    then have f: "find_interface h net net None = Inl (Shorting names)"
      using find_interface_shorting[OF assms, of a None b net] e by auto
    then have r: "resolve_bundle_net m net h = Inl (Shorting names)"
      by (simp add: resolve_bundle_net_def)
    from l f r show "\<exists>names. list_all2 (named h) net names
                \<and> find_interface h net net None = Inl (Shorting names)
                \<and> resolve_bundle_net m net h = Inl (Shorting names)
                \<and> (\<forall>pre rest h0. for_each (resolve_bundle_net m) pre h0 = Inr h
                      \<longrightarrow> for_each (resolve_bundle_net m) (pre @ net # rest) h0 = Inl (Shorting names))"
      by (intro exI[of _ names]) (simp add: for_each_append)
  qed
qed

theorem shorting_detected_witness:
  "resolve_net 0 [(PInst 1, ''p''), (PInst 2, ''q'')] short_heap = Inl (Shorting [(''x'', ''p''), (''y'', ''q'')])
   \<and> resolve_bundle_net 0 [(PInst 1, ''b''), (PInst 2, ''c'')] short_heap
       = Inl (Shorting [(''x'', ''b''), (''y'', ''c'')])"
proof -
  have r1: "\<forall>p\<in>set [(PInst 1, ''p''), (PInst 2, ''q'')]. readable short_heap p"
    and r2: "\<forall>p\<in>set [(PInst 1, ''b''), (PInst 2, ''c'')]. readable short_heap p"
    by (simp_all add: readable_def short_heap_def)
  have s1: "\<exists>p\<in>set [(PInst 1, ''p''), (PInst 2, ''q'')]. \<exists>q\<in>set [(PInst 1, ''p''), (PInst 2, ''q'')].
      \<exists>a b. member_conn short_heap p = Inr (Some (CSignal a))
             \<and> member_conn short_heap q = Inr (Some (CSignal b)) \<and> a \<noteq> b"
    by (simp add: member_conn_def short_heap_def get_instance_def)
  have s2: "\<exists>p\<in>set [(PInst 1, ''b''), (PInst 2, ''c'')]. \<exists>q\<in>set [(PInst 1, ''b''), (PInst 2, ''c'')].
      \<exists>a b. member_conn short_heap p = Inr (Some (CInterface a))
             \<and> member_conn short_heap q = Inr (Some (CInterface b)) \<and> a \<noteq> b"
    by (simp add: member_conn_def short_heap_def get_instance_def)
  from shorting_detected[OF r1, of 0] s1 obtain n1 where
    n1: "list_all2 (named short_heap) [(PInst 1, ''p''), (PInst 2, ''q'')] n1"
    and e1: "resolve_net 0 [(PInst 1, ''p''), (PInst 2, ''q'')] short_heap = Inl (Shorting n1)"
    by blast
  from shorting_detected[OF r2, of 0] s2 obtain n2 where
    n2: "list_all2 (named short_heap) [(PInst 1, ''b''), (PInst 2, ''c'')] n2"
    and e2: "resolve_bundle_net 0 [(PInst 1, ''b''), (PInst 2, ''c'')] short_heap = Inl (Shorting n2)"
    by blast
  from n1 have "n1 = [(''x'', ''p''), (''y'', ''q'')]"
    by (auto simp: list_all2_Cons1 named_def short_heap_def)
  moreover from n2 have "n2 = [(''x'', ''b''), (''y'', ''c'')]"
    by (auto simp: list_all2_Cons1 named_def short_heap_def)
  ultimately show ?thesis using e1 e2 by simp
qed



section \<open>Implicit scalar nets\<close>

lemma set_fields_instances [simp]:
  "h_instances (set_signal a x h) = h_instances h"
  "h_instances (set_instance a i h) = (h_instances h)(a \<mapsto> i)"
  "h_instances (set_interface a ii h) = h_instances h"
  "h_instances (set_call a c h) = h_instances h"
  "h_instances (set_module a M h) = h_instances h"
  by (simp_all add: set_signal_def set_instance_def set_interface_def set_call_def set_module_def)

lemma connect_step:
  assumes "connect c p h = Inr h1"
  shows "member_conn h1 p = Inr (Some c)"
    and "member_conn h q = Inr (Some c) \<Longrightarrow> member_conn h1 q = Inr (Some c)"
    and "h_signals h1 = h_signals h" and "h_modules h1 = h_modules h"
  using assms
  by (auto simp: connect_def member_conn_def update_conv split: owner.splits)

lemma connect_loop:
  "for_each (connect c) ps h = Inr h' \<Longrightarrow>
     (\<forall>p\<in>set ps. member_conn h' p = Inr (Some c))
   \<and> (\<forall>q. member_conn h q = Inr (Some c) \<longrightarrow> member_conn h' q = Inr (Some c))
   \<and> h_signals h' = h_signals h \<and> h_modules h' = h_modules h"
proof (induction ps arbitrary: h)
  case Nil
  then show ?case by simp
next
  case (Cons p ps)
  from Cons.prems obtain h1 where s: "connect c p h = Inr h1" and r: "for_each (connect c) ps h1 = Inr h'"
    by auto
  note st = connect_step[OF s] and ih = Cons.IH[OF r]
  show ?case
  proof (intro conjI ballI allI impI)
    fix q assume "q \<in> set (p # ps)"
    then show "member_conn h' q = Inr (Some c)"
      using st(1) ih by (cases "q = p") fastforce+
  next
    fix q assume "member_conn h q = Inr (Some c)"
    then show "member_conn h' q = Inr (Some c)" using st(2) ih by blast
  next
    show "h_signals h' = h_signals h" using st(3) ih by simp
    show "h_modules h' = h_modules h" using st(4) ih by simp
  qed
qed

lemma find_signal_none:
  "\<forall>p\<in>set ps. \<forall>a. member_conn h p \<noteq> Inr (Some (CSignal a)) \<Longrightarrow>
   find_signal h net ps None = Inr r \<Longrightarrow> r = None"
proof (induction ps)
  case Nil
  then show ?case by simp
next
  case (Cons p ps)
  from Cons.prems(2) obtain c where c: "member_conn h p = Inr c" by auto
  with Cons.prems(1) have "\<forall>a. c \<noteq> Some (CSignal a)" by auto
  then have "find_signal h net (p # ps) None = find_signal h net ps None"
    using c by (cases c) (auto split: conn.splits)
  with Cons.prems(2) have "find_signal h net ps None = Inr r"
    by (simp del: find_signal.simps)
  with Cons.IH Cons.prems(1) show ?case by simp
qed

lemma find_signal_readable:
  "find_signal h net ps sig = Inr r \<Longrightarrow> \<forall>p\<in>set ps. readable h p"
proof (induction ps arbitrary: sig)
  case Nil
  then show ?case by simp
next
  case (Cons p ps)
  from Cons.prems obtain c where c: "member_conn h p = Inr c" by auto
  then have rp: "readable h p"
    by (auto simp: member_conn_def readable_def split: owner.splits)
  from Cons.prems c obtain sig' where "find_signal h net ps sig' = Inr r"
    by (cases c) (auto split: conn.splits if_splits)
  from Cons.IH[OF this] rp show ?case by simp
qed

lemma create_signal_effect:
  assumes "create_signal m net h = Inr r"
  shows "\<exists>names signame M lastmod d.
           net \<noteq> [] \<and> net_names h net = Inr names \<and> h_modules h m = Some M
         \<and> flatname (segments_of names) (set (map fst (namespace M))) default_maxlen = Inr signame
         \<and> owner_resolved h (fst (last net)) = Inr lastmod
         \<and> port_definition h lastmod (snd (last net)) = Inr (Some d)
         \<and> fst r = next_addr h
         \<and> h_signals (snd r) = (h_signals h)(next_addr h \<mapsto> d\<lparr>sig_name := signame, vis := INTERNAL, direction := NONE\<rparr>)
         \<and> h_modules (snd r) = (h_modules h)(m \<mapsto> M\<lparr>namespace := AList.update signame (NSignal (next_addr h)) (namespace M),
                                                      signals := AList.update signame (next_addr h) (signals M)\<rparr>)"
  using assms unfolding create_signal_def
  by (auto simp: Let_def new_signal_def module_add_signal_def split: if_splits option.splits)


text \<open>
  One round of the loop over the nets. Take a round of \<open>ImplicitSignals\<close> that succeeds on a
  net none of whose members is connected to a declared Signal. The round adds exactly
  one Signal object to the store. It is a copy of the port definition that the resolved
  target of the last member of the net has for that member's port, with visibility
  \<open>INTERNAL\<close>, direction \<open>NONE\<close> and the name \<open>flatname\<close> returns for the segments
  \<open>instname_portname\<close> of the members against the keys of the module's namespace, a name
  that is not among those keys. The module gets it under that name, and every member of
  the net is connected to it.
\<close>

theorem implicit_signal_created:
  assumes "resolve_net m net h = Inr h'"
    and "\<forall>p\<in>set net. \<forall>a. member_conn h p \<noteq> Inr (Some (CSignal a))"
    and "h_signals h (next_addr h) = None"
  shows "\<exists>names signame M lastmod d.
           net \<noteq> [] \<and> net_names h net = Inr names \<and> list_all2 (named h) net names
         \<and> h_modules h m = Some M
         \<and> flatname (segments_of names) (set (map fst (namespace M))) default_maxlen = Inr signame
         \<and> signame \<notin> set (map fst (namespace M))
         \<and> owner_resolved h (fst (last net)) = Inr lastmod
         \<and> port_definition h lastmod (snd (last net)) = Inr (Some d)
         \<and> h_signals h' = (h_signals h)(next_addr h \<mapsto> d\<lparr>sig_name := signame, vis := INTERNAL, direction := NONE\<rparr>)
         \<and> dom (h_signals h') = insert (next_addr h) (dom (h_signals h))
         \<and> next_addr h \<notin> dom (h_signals h)
         \<and> h_modules h' = (h_modules h)(m \<mapsto> M\<lparr>namespace := AList.update signame (NSignal (next_addr h)) (namespace M),
                                               signals := AList.update signame (next_addr h) (signals M)\<rparr>)
         \<and> (\<forall>p\<in>set net. member_conn h' p = Inr (Some (CSignal (next_addr h))))"
proof -
  from assms(1) obtain found r where f: "find_signal h net net None = Inr found"
    and c: "(case found of Some a \<Rightarrow> Inr (a, h) | None \<Rightarrow> create_signal m net h) = Inr r"
    and l: "for_each (connect (CSignal (fst r))) net (snd r) = Inr h'"
    unfolding resolve_net_def by auto
  from find_signal_none[OF assms(2) f] c have cr: "create_signal m net h = Inr r" by simp
  from create_signal_effect[OF cr] obtain names signame M lastmod d where e:
    "net \<noteq> []" "net_names h net = Inr names" "h_modules h m = Some M"
    "flatname (segments_of names) (set (map fst (namespace M))) default_maxlen = Inr signame"
    "owner_resolved h (fst (last net)) = Inr lastmod"
    "port_definition h lastmod (snd (last net)) = Inr (Some d)"
    "fst r = next_addr h"
    "h_signals (snd r) = (h_signals h)(next_addr h \<mapsto> d\<lparr>sig_name := signame, vis := INTERNAL, direction := NONE\<rparr>)"
    "h_modules (snd r) = (h_modules h)(m \<mapsto> M\<lparr>namespace := AList.update signame (NSignal (next_addr h)) (namespace M),
                                                signals := AList.update signame (next_addr h) (signals M)\<rparr>)"
    by blast
  from net_names_readable[OF find_signal_readable[OF f]] e(2) have nm: "list_all2 (named h) net names"
    by auto
  from flatname_Inr[OF e(4)] have fr: "signame \<notin> set (map fst (namespace M))" by simp
  note cl = connect_loop[OF l]
  have sg: "h_signals h' = (h_signals h)(next_addr h \<mapsto> d\<lparr>sig_name := signame, vis := INTERNAL, direction := NONE\<rparr>)"
    using cl e(8) by simp
  have md: "h_modules h' = (h_modules h)(m \<mapsto> M\<lparr>namespace := AList.update signame (NSignal (next_addr h)) (namespace M),
                                               signals := AList.update signame (next_addr h) (signals M)\<rparr>)"
    using cl e(9) by simp
  have dm: "dom (h_signals h') = insert (next_addr h) (dom (h_signals h))"
    using sg by simp
  have nw: "next_addr h \<notin> dom (h_signals h)"
    using assms(3) by auto
  have cn: "\<forall>p\<in>set net. member_conn h' p = Inr (Some (CSignal (next_addr h)))"
    using cl e(7) by simp
  from e(1,2) nm e(3,4) fr e(5,6) sg dm nw md cn show ?thesis
    by blast
qed

lemmas eval_net_defs = resolve_net_def create_signal_def net_names_def owner_name_def member_conn_def
  segments_of_def owner_resolved_def resolved_of_def port_definition_def connect_def
  build_portconns_def portconns_of_instance_def build_nets.simps follow.simps setlist_add_def key_of_def
  elaborate_instance_def new_elab_def

theorem implicit_signal_created_witness:
  "\<exists>h'. resolve_net 0 [(PInst 3, ''p''), (PInst 4, ''q'')] net_heap = Inr h'
      \<and> h_signals h' 8 = Some \<lparr>sig_name = ''_x_p_y_q_'', width = 1, vis = INTERNAL, direction = NONE,
                                src = None, dest = None\<rparr>
      \<and> dom (h_signals h') = insert 8 (dom (h_signals net_heap))
      \<and> (\<forall>p\<in>set [(PInst 3, ''p''), (PInst 4, ''q'')]. member_conn h' p = Inr (Some (CSignal 8)))"
proof -
  have "\<exists>h'. resolve_net 0 [(PInst 3, ''p''), (PInst 4, ''q'')] net_heap = Inr h'"
    by (simp add: eval_net_defs eval_defs net_heap_def empty_heap_def wire_def)
  then obtain h' where r: "resolve_net 0 [(PInst 3, ''p''), (PInst 4, ''q'')] net_heap = Inr h'"
    by (elim exE)
  have none: "\<forall>p\<in>set [(PInst 3, ''p''), (PInst 4, ''q'')].
                \<forall>a. member_conn net_heap p \<noteq> Inr (Some (CSignal a))"
    by (simp add: member_conn_def net_heap_def get_instance_def)
  have fresh: "h_signals net_heap (next_addr net_heap) = None"
    by (simp add: net_heap_def)
  from implicit_signal_created[OF r none fresh] obtain names signame M lastmod d where e:
    "net_names net_heap [(PInst 3, ''p''), (PInst 4, ''q'')] = Inr names"
    "h_modules net_heap 0 = Some M"
    "flatname (segments_of names) (set (map fst (namespace M))) default_maxlen = Inr signame"
    "owner_resolved net_heap (fst (last [(PInst 3, ''p''), (PInst 4, ''q'')])) = Inr lastmod"
    "port_definition net_heap lastmod (snd (last [(PInst 3, ''p''), (PInst 4, ''q'')])) = Inr (Some d)"
    "h_signals h' = (h_signals net_heap)(next_addr net_heap \<mapsto> d\<lparr>sig_name := signame, vis := INTERNAL, direction := NONE\<rparr>)"
    "dom (h_signals h') = insert (next_addr net_heap) (dom (h_signals net_heap))"
    "\<forall>p\<in>set [(PInst 3, ''p''), (PInst 4, ''q'')]. member_conn h' p = Inr (Some (CSignal (next_addr net_heap)))"
    by blast
  have n: "next_addr net_heap = 8" by (simp add: net_heap_def)
  from e(1) have names: "names = [(''x'', ''p''), (''y'', ''q'')]"
    by (simp add: net_names_def owner_name_def net_heap_def get_instance_def)
  from e(2) have M: "namespace M = [(''x'', NInstance 3), (''y'', NInstance 4)]"
    by (auto simp: net_heap_def)
  from e(3) have signame: "signame = ''_x_p_y_q_''"
    unfolding names M by (simp add: segments_of_def flatname_def flatname_loop.simps default_maxlen_def)
  from e(4) have lastmod: "lastmod = RModule 2"
    by (simp add: owner_resolved_def resolved_of_def net_heap_def get_instance_def)
  from e(5) have d: "d = wire ''q''"
    unfolding lastmod by (simp add: port_definition_def net_heap_def get_module_def get_signal_def)
  from e(6) have "h_signals h' 8 = Some \<lparr>sig_name = ''_x_p_y_q_'', width = 1, vis = INTERNAL, direction = NONE,
                                src = None, dest = None\<rparr>"
    unfolding n signame d by (simp add: wire_def)
  with r e(7,8) n show ?thesis by auto
qed



section \<open>Visits of a shared module\<close>

lemmas eval_pass_defs = eval_net_defs eval_defs build_bundle_portconns_def
  GeneratorElaborator_elaborate_module_def GeneratorElaborator_elaborate_module_body_def
  GeneratorElaborator_elaborate_instance_def flatten_loop.simps elaborate_interface_instance_def

text \<open>
  Claim C7 asks that every pass runs the body of \<open>elaborate_module\<close> at most once for each
  module. On a module shared by two Instances, \<open>ImplicitSignals\<close> and \<open>ImplicitInterfaces\<close>
  run it twice: they keep no table of finished modules. \<open>InterfaceFlattener\<close> and
  \<open>GeneratorElaborator\<close>, which keep \<open>self.modules\<close>, run it once.
\<close>

theorem shared_module_visited_twice:
  "map_sum id visits (ImplicitSignals_elaborate_module 2 0 (new_elab () share_heap)) = Inr [0, 1, 1]
   \<and> map_sum id visits (ImplicitInterfaces_elaborate_module 2 0 (new_elab () share_heap)) = Inr [0, 1, 1]
   \<and> map_sum id visits (InterfaceFlattener_elaborate_module 2 0
        (new_elab \<lparr>f_modules = {}, replacements = Map.empty\<rparr> share_heap)) = Inr [0, 1]
   \<and> map_sum id visits (GeneratorElaborator_elaborate_module no_generators example_unique_name Context 2 0
        (new_elab \<lparr>generator_calls = Map.empty, g_modules = {}\<rparr> share_heap)) = Inr [0, 1]"
  by (simp add: numeral_2_eq_2 eval_pass_defs share_heap_def empty_heap_def)



section \<open>No bundle survives elaboration\<close>

lemma set_fields_calls [simp]:
  "h_calls (set_signal a x h) = h_calls h"
  "h_calls (set_instance a i h) = h_calls h"
  "h_calls (set_interface a ii h) = h_calls h"
  "h_calls (set_call a c h) = (h_calls h)(a \<mapsto> c)"
  "h_calls (set_module a M h) = h_calls h"
  by (simp_all add: set_signal_def set_instance_def set_interface_def set_call_def set_module_def)

lemma shapeD:
  assumes "shape h' = shape h"
  shows "h_modules h a = Some M \<Longrightarrow> \<exists>M'. h_modules h' a = Some M' \<and> instances M' = instances M \<and> interfaces M' = interfaces M"
    and "h_instances h i = Some inst \<Longrightarrow> \<exists>inst'. h_instances h' i = Some inst' \<and> inst_of inst' = inst_of inst"
    and "h_calls h' = h_calls h"
proof -
  from assms have "fst (shape h') a = fst (shape h) a" by simp
  then have m: "map_option (\<lambda>M. (instances M, interfaces M)) (h_modules h' a)
                    = map_option (\<lambda>M. (instances M, interfaces M)) (h_modules h a)"
    by (simp add: shape_def)
  from assms have "fst (snd (shape h')) i = fst (snd (shape h)) i" by simp
  then have i: "map_option inst_of (h_instances h' i) = map_option inst_of (h_instances h i)"
    by (simp add: shape_def)
  from assms have "snd (snd (shape h')) = snd (snd (shape h))" by simp
  then have c: "h_calls h' = h_calls h"
    by (simp add: shape_def)
  show "h_modules h a = Some M \<Longrightarrow> \<exists>M'. h_modules h' a = Some M' \<and> instances M' = instances M \<and> interfaces M' = interfaces M"
    using m by (cases "h_modules h' a") auto
  show "h_instances h i = Some inst \<Longrightarrow> \<exists>inst'. h_instances h' i = Some inst' \<and> inst_of inst' = inst_of inst"
    using i by (cases "h_instances h' i") auto
  show "h_calls h' = h_calls h" by (rule c)
qed

lemma resolved_of_cong:
  "inst_of inst' = inst_of inst \<Longrightarrow> h_calls h' = h_calls h \<Longrightarrow> resolved_of h' inst' = resolved_of h inst"
  by (cases "inst_of inst") (simp_all add: resolved_of_def get_call_def)

lemma child_shape_imp:
  assumes "shape h' = shape h" and "child h m c"
  shows "child h' m c"
proof -
  from assms(2) obtain M n i inst where M: "h_modules h m = Some M" and ni: "(n, i) \<in> set (instances M)"
    and inst: "h_instances h i = Some inst" and r: "resolved_of h inst = Inr (RModule c)"
    unfolding child_def by blast
  from shapeD(1)[OF assms(1) M] obtain M' where M': "h_modules h' m = Some M'" "instances M' = instances M"
    by blast
  from shapeD(2)[OF assms(1) inst] obtain inst' where i': "h_instances h' i = Some inst'" "inst_of inst' = inst_of inst"
    by blast
  from resolved_of_cong[OF i'(2) shapeD(3)[OF assms(1)]] r have "resolved_of h' inst' = Inr (RModule c)"
    by simp
  with M' ni i' show ?thesis unfolding child_def by auto
qed

lemma child_shape: "shape h' = shape h \<Longrightarrow> child h' = child h"
proof (intro ext iffI)
  fix m c assume s: "shape h' = shape h" and c: "child h' m c"
  from s have "shape h = shape h'" by (rule sym)
  from child_shape_imp[OF this c] show "child h m c" .
next
  fix m c assume s: "shape h' = shape h" and c: "child h m c"
  from child_shape_imp[OF s c] show "child h' m c" .
qed

lemma reach_shape: "shape h' = shape h \<Longrightarrow> reach h' = reach h"
  using child_shape[of h' h] by (simp add: reach_def)

lemma no_interfaces_shape_imp:
  "shape h' = shape h \<Longrightarrow> no_interfaces h c \<Longrightarrow> no_interfaces h' c"
  unfolding no_interfaces_def by (auto dest: shapeD(1))

lemma no_interfaces_shape: "shape h' = shape h \<Longrightarrow> no_interfaces h' c = no_interfaces h c"
proof
  assume s: "shape h' = shape h" and n: "no_interfaces h' c"
  from s have "shape h = shape h'" by (rule sym)
  from no_interfaces_shape_imp[OF this n] show "no_interfaces h c" .
next
  assume "shape h' = shape h" and "no_interfaces h c"
  then show "no_interfaces h' c" by (rule no_interfaces_shape_imp)
qed


lemma shape_set_instance:
  "h_instances h a = Some i \<Longrightarrow> inst_of i' = inst_of i \<Longrightarrow> shape (set_instance a i' h) = shape h"
  by (auto simp: shape_def fun_eq_iff)

lemma shape_set_module:
  "h_modules h m = Some M \<Longrightarrow> instances M' = instances M \<Longrightarrow> interfaces M' = interfaces M
     \<Longrightarrow> shape (set_module m M' h) = shape h"
  by (auto simp: shape_def fun_eq_iff)

lemma shape_set_signal [simp]: "shape (set_signal a x h) = shape h"
  by (simp add: shape_def)

lemma shape_next_addr [simp]: "shape (h\<lparr>next_addr := n\<rparr>) = shape h"
  by (simp add: shape_def)

lemma connect_shape: "connect c p h = Inr h' \<Longrightarrow> shape h' = shape h"
  by (auto simp: connect_def shape_set_instance split: owner.splits)

lemma module_add_signal_shape: "module_add_signal m a h = Inr h' \<Longrightarrow> shape h' = shape h"
  by (auto simp: module_add_signal_def Let_def shape_set_module)

lemma create_signal_shape: "create_signal m net h = Inr r \<Longrightarrow> shape (snd r) = shape h"
  unfolding create_signal_def
  by (auto simp: Let_def new_signal_def split: if_splits option.splits dest!: module_add_signal_shape)

lemma resolve_net_shape: "resolve_net m net h = Inr h' \<Longrightarrow> shape h' = shape h"
proof -
  assume "resolve_net m net h = Inr h'"
  then obtain found r where
    c: "(case found of Some a \<Rightarrow> Inr (a, h) | None \<Rightarrow> create_signal m net h) = Inr r"
    and l: "for_each (connect (CSignal (fst r))) net (snd r) = Inr h'"
    unfolding resolve_net_def by auto
  from c have 1: "shape (snd r) = shape h"
    by (cases found) (auto dest: create_signal_shape)
  have "shape h' = shape (snd r)"
    by (rule for_each_inv[OF l, where P="\<lambda>t. shape t = shape (snd r)"]) (auto dest: connect_shape)
  with 1 show ?thesis by simp
qed

lemma elaborate_instance_shape:
  assumes em: "\<And>m t t'. em m t = Inr t' \<Longrightarrow> shape (store t') = shape (store t)"
    and "elaborate_instance em a st = Inr st'"
  shows "shape (store st') = shape (store st)"
proof -
  from assms(2) obtain inst r where i: "h_instances (store st) a = Some inst"
    and r: "(case r of RNone \<Rightarrow> Inl UndefinedInstance
         | RModule m \<Rightarrow> em m (st\<lparr>store := set_instance a (inst\<lparr>inst_elaborated := True\<rparr>) (store st)\<rparr>)
         | RPrimitive ps \<Rightarrow> Inr (st\<lparr>store := set_instance a (inst\<lparr>inst_elaborated := True\<rparr>) (store st)\<rparr>)
         | RExternal ps \<Rightarrow> Inr (st\<lparr>store := set_instance a (inst\<lparr>inst_elaborated := True\<rparr>) (store st)\<rparr>)
         | ROther \<Rightarrow> Inl TypeError) = Inr st'"
    unfolding elaborate_instance_def by (auto simp: Let_def)
  have s1: "shape (set_instance a (inst\<lparr>inst_elaborated := True\<rparr>) (store st)) = shape (store st)"
    using i by (simp add: shape_set_instance)
  from r show ?thesis
    by (cases r) (auto dest!: em simp: s1)
qed

lemma ImplicitSignals_shape:
  "ImplicitSignals_elaborate_module n m st = Inr st' \<Longrightarrow> shape (store st') = shape (store st)"
proof (induction n arbitrary: m st st')
  case 0
  then show ?case by simp
next
  case (Suc n)
  from Suc.prems obtain M st1 M1 portconns h2 where
    M: "h_modules (store st) m = Some M"
    and l1: "for_each (elaborate_instance (ImplicitSignals_elaborate_module n)) (map snd (instances M))
               (st\<lparr>visits := visits st @ [m]\<rparr>) = Inr st1"
    and l2: "for_each (resolve_net m) (build_nets portconns) (store st1) = Inr h2"
    and st': "st' = st1\<lparr>store := h2\<rparr>"
    by (auto split: if_splits)
  have ei: "shape (store t') = shape (store t)"
    if "elaborate_instance (ImplicitSignals_elaborate_module n) a t = Inr t'" for a t t'
    by (rule elaborate_instance_shape[OF _ that]) (rule Suc.IH)
  have 1: "shape (store st1) = shape (store st)"
    by (rule for_each_inv[OF l1, where P="\<lambda>t. shape (store t) = shape (store st)"])
       (auto dest: ei)
  have 2: "shape h2 = shape (store st1)"
    by (rule for_each_inv[OF l2, where P="\<lambda>t. shape t = shape (store st1)"]) (auto dest: resolve_net_shape)
  from 1 2 st' show ?case by simp
qed

lemma for_each_mem:
  assumes "for_each body xs s = Inr s'" and "x \<in> set xs" and "Q s"
    and "\<And>y t t'. body y t = Inr t' \<Longrightarrow> Q t \<Longrightarrow> Q t'"
  shows "\<exists>t t'. Q t \<and> body x t = Inr t'"
  using assms(1,2,3)
proof (induction xs arbitrary: s)
  case Nil
  then show ?case by simp
next
  case (Cons y ys)
  from Cons.prems(1) obtain s1 where b: "body y s = Inr s1" and r: "for_each body ys s1 = Inr s'"
    by auto
  show ?case
  proof (cases "x = y")
    case True
    with b Cons.prems(3) show ?thesis by blast
  next
    case False
    with Cons.prems(2) have "x \<in> set ys" by simp
    from Cons.IH[OF r this assms(4)[OF b Cons.prems(3)]] show ?thesis .
  qed
qed


lemma elaborate_instance_module:
  assumes "elaborate_instance em a t = Inr t'" and "h_instances (store t) a = Some inst"
    and "resolved_of (store t) inst = Inr (RModule c)"
  shows "em c (t\<lparr>store := set_instance a (inst\<lparr>inst_elaborated := True\<rparr>) (store t)\<rparr>) = Inr t'"
proof -
  have "resolved_of (set_instance a (inst\<lparr>inst_elaborated := True\<rparr>) (store t)) inst
          = resolved_of (store t) inst"
    by (rule resolved_of_cong) simp_all
  with assms show ?thesis
    unfolding elaborate_instance_def by (auto simp: Let_def)
qed

lemma ImplicitSignals_guard:
  "ImplicitSignals_elaborate_module n m st = Inr st' \<Longrightarrow> reach (store st) m c
     \<Longrightarrow> no_interfaces (store st) c"
proof (induction n arbitrary: m st st' c)
  case 0
  then show ?case by simp
next
  case (Suc n)
  from Suc.prems(1) obtain M st1 where
    M: "h_modules (store st) m = Some M" and e: "interfaces M = []"
    and l1: "for_each (elaborate_instance (ImplicitSignals_elaborate_module n)) (map snd (instances M))
               (st\<lparr>visits := visits st @ [m]\<rparr>) = Inr st1"
    by (auto split: if_splits)
  from Suc.prems(2) have "(child (store st))\<^sup>*\<^sup>* m c" by (simp add: reach_def)
  then show ?case
  proof (cases rule: converse_rtranclpE)
    case base
    with M e show ?thesis by (simp add: no_interfaces_def)
  next
    case (step c1)
    from step(1) M obtain nm i inst where ni: "(nm, i) \<in> set (instances M)"
      and inst: "h_instances (store st) i = Some inst"
      and res: "resolved_of (store st) inst = Inr (RModule c1)"
      unfolding child_def by auto
    from ni have mem: "i \<in> set (map snd (instances M))" by force
    have ei: "shape (store t') = shape (store t)"
      if "elaborate_instance (ImplicitSignals_elaborate_module n) a t = Inr t'" for a t t'
      by (rule elaborate_instance_shape[OF _ that]) (rule ImplicitSignals_shape)
    have "\<exists>t t'. shape (store t) = shape (store st)
            \<and> elaborate_instance (ImplicitSignals_elaborate_module n) i t = Inr t'"
      by (rule for_each_mem[OF l1 mem, where Q="\<lambda>t. shape (store t) = shape (store st)"])
         (auto dest: ei)
    then obtain t t' where sh: "shape (store t) = shape (store st)"
      and run: "elaborate_instance (ImplicitSignals_elaborate_module n) i t = Inr t'"
      by blast
    from shapeD(2)[OF sh inst] obtain inst' where inst': "h_instances (store t) i = Some inst'"
      and same: "inst_of inst' = inst_of inst"
      by blast
    have "resolved_of (store t) inst' = resolved_of (store st) inst"
      by (rule resolved_of_cong[OF same shapeD(3)[OF sh]])
    with res have res': "resolved_of (store t) inst' = Inr (RModule c1)" by simp
    let ?t1 = "t\<lparr>store := set_instance i (inst'\<lparr>inst_elaborated := True\<rparr>) (store t)\<rparr>"
    from elaborate_instance_module[OF run inst' res']
    have sub: "ImplicitSignals_elaborate_module n c1 ?t1 = Inr t'" .
    have sh1: "shape (store ?t1) = shape (store st)"
      using sh inst' by (simp add: shape_set_instance)
    from step(2) have "reach (store st) c1 c" by (simp add: reach_def)
    then have "reach (store ?t1) c1 c" using reach_shape[OF sh1] by simp
    from Suc.IH[OF sub this] have "no_interfaces (store ?t1) c" .
    then show ?thesis using no_interfaces_shape[OF sh1] by simp
  qed
qed

lemma ImplicitSignals_post:
  assumes "ImplicitSignals_elaborate_module n m st = Inr st'" and "reach (store st') m c"
  shows "no_interfaces (store st') c"
proof -
  note sh = ImplicitSignals_shape[OF assms(1)]
  from assms(2) have "reach (store st) m c" using reach_shape[OF sh] by simp
  from ImplicitSignals_guard[OF assms(1) this] show ?thesis
    using no_interfaces_shape[OF sh] by simp
qed

text \<open>
  Claim C1. When \<open>elaborate\<close> with the default pass list returns, it returns a Module, and
  that Module and every Module reached from it through Instance targets has an empty
  interface map in the store the call leaves.
\<close>

theorem elaborate_no_interfaces:
  assumes "elaborate F U n t ctx None h = Inr (t', h')"
  shows "\<exists>m. t' = TModule m
           \<and> (\<forall>c. reach h' m c \<longrightarrow> (\<exists>M. h_modules h' c = Some M \<and> interfaces M = []))"
proof -
  from assms obtain c1 r3 where
    last: "run_pass F U n IMPLICIT_SIGNALS c1 (fst r3) (snd r3) = Inr (t', h')"
    unfolding elaborate_def all_passes_def by (auto simp: Let_def)
  then obtain m st' where t': "t' = TModule m" and h': "h' = store st'"
    and run: "ImplicitSignals_elaborate_module n m (new_elab () (snd r3)) = Inr st'"
    unfolding run_pass_def by (auto split: top.splits)
  from ImplicitSignals_post[OF run] t' h' show ?thesis
    by (auto simp: no_interfaces_def)
qed


lemmas eval_elaborate_defs = elaborate_def all_passes_def run_pass_def eval_pass_defs
  replace_port_def bundle_heap_def diff_io_def Diff_def diff_signal_def empty_heap_def
  set_interface_def

theorem elaborate_no_interfaces_witness:
  "\<exists>h'. elaborate no_generators example_unique_name 3 (TModule 0) None None bundle_heap = Inr (TModule 0, h')
      \<and> reach h' 0 1
      \<and> (\<forall>c. reach h' 0 c \<longrightarrow> (\<exists>M. h_modules h' c = Some M \<and> interfaces M = []))"
proof -
  have "\<exists>h'. elaborate no_generators example_unique_name 3 (TModule 0) None None bundle_heap = Inr (TModule 0, h')
      \<and> map_option instances (h_modules h' 0) = Some [(''c'', 2)]
      \<and> map_option inst_of (h_instances h' 2) = Some (OfModule 1)"
    by (simp add: numeral_3_eq_3 eval_elaborate_defs)
  then obtain h' where
    r: "elaborate no_generators example_unique_name 3 (TModule 0) None None bundle_heap = Inr (TModule 0, h')"
    and m: "map_option instances (h_modules h' 0) = Some [(''c'', 2)]"
    and i: "map_option inst_of (h_instances h' 2) = Some (OfModule 1)"
    by (elim exE conjE)
  from m i have "child h' 0 1"
    by (auto simp: child_def resolved_of_def)
  then have re: "reach h' 0 1"
    by (simp add: reach_def)
  from elaborate_no_interfaces[OF r] have
    "\<forall>c. reach h' 0 c \<longrightarrow> (\<exists>M. h_modules h' c = Some M \<and> interfaces M = [])"
    by simp
  with r re show ?thesis by blast
qed




section \<open>The walk does not collect a whole component\<close>

text \<open>
  Claim C4 asks for a Signal named over the members of the connected component. The
  walk of lines 258 to 270 follows connections forward only, from the entry it pops to
  the first port that is not a key of \<open>portconns\<close>; the ports that lead into a net from
  behind are collected later, as nets of their own that end on a port of the first one.
  For \<open>x.p = y.q\<close>, \<open>y.q = z.r\<close> the nets are \<open>[y.q, z.r]\<close> and \<open>[x.p, y.q]\<close>: one Signal is
  created, all three ports are connected to it, and its name is \<open>_y_q_z_r_\<close>, without the
  member \<open>x.p\<close>. For the testbench of \<open>examples/mos_sim.py\<close> the one Signal that joins drain,
  gate and \<open>vdc.p\<close> is named \<open>_mos_g_vdc_p_\<close>, without the member \<open>mos.d\<close>. The comment of
  line 269 says that the walk has "covered everything connected to the net".
\<close>

theorem component_split_by_walk:
  "build_portconns chain_heap [1, 2, 3]
     = Inr [((PInst 1, ''p''), PortRef 8 (PInst 2) ''q''), ((PInst 2, ''q''), PortRef 9 (PInst 3) ''r'')]
   \<and> build_nets [((PInst 1, ''p''), PortRef 8 (PInst 2) ''q''), ((PInst 2, ''q''), PortRef 9 (PInst 3) ''r'')]
     = [[(PInst 2, ''q''), (PInst 3, ''r'')], [(PInst 1, ''p''), (PInst 2, ''q'')]]
   \<and> (\<exists>st'. ImplicitSignals_elaborate_module 2 0 (new_elab () chain_heap) = Inr st'
        \<and> dom (h_signals (store st')) = insert 10 (dom (h_signals chain_heap))
        \<and> map_option sig_name (h_signals (store st') 10) = Some ''_y_q_z_r_''
        \<and> map (member_conn (store st')) [(PInst 1, ''p''), (PInst 2, ''q''), (PInst 3, ''r'')]
            = [Inr (Some (CSignal 10)), Inr (Some (CSignal 10)), Inr (Some (CSignal 10))])
   \<and> (\<exists>st'. ImplicitSignals_elaborate_module 2 0 (new_elab () mos_heap) = Inr st'
        \<and> dom (h_signals (store st')) = insert 5 (dom (h_signals mos_heap))
        \<and> map_option sig_name (h_signals (store st') 5) = Some ''_mos_g_vdc_p_''
        \<and> map (member_conn (store st')) [(PInst 3, ''d''), (PInst 3, ''g''), (PInst 2, ''p'')]
            = [Inr (Some (CSignal 5)), Inr (Some (CSignal 5)), Inr (Some (CSignal 5))])"
  by (simp add: numeral_2_eq_2 eval_pass_defs chain_heap_def mos_heap_def empty_heap_def wire_def)


section \<open>The shorting error is never raised by a pass\<close>




lemma set_setlist_add [simp]: "set (setlist_add x xs) = insert x (set xs)"
  by (auto simp: setlist_add_def)





lemma is_shorting_simps [simp]:
  "\<not> is_shorting Dangling" "\<not> is_shorting AttributeError" "\<not> is_shorting TypeError"
  "\<not> is_shorting UndefinedInstance" "\<not> is_shorting (NameError segs nm)" "\<not> is_shorting UnboundLocalError"
  "\<not> is_shorting (InvalidPort a b)" "\<not> is_shorting InterfacesPresent" "\<not> is_shorting RecursionError"
  "\<not> is_shorting KeyError" "\<not> is_shorting RuntimeError"
  by (simp_all add: is_shorting_def)














































lemma is_shorting_iff: "is_shorting e \<longleftrightarrow> (\<exists>names. e = Shorting names)"
  by (cases e) (simp_all add: is_shorting_def)




end
